theory Spec2Isabelle
  imports Complex_Main "HOL-Library.Multiset" "HOL-Library.Log_Nat"
begin

section \<open>Order-book levels and the errors of the computation\<close>

text \<open>
  An order-book side is a Python list \<^verbatim>\<open>[[price, qty], ...]\<close>. Prices and quantities
  are Python numbers. Two models of them are used. Where a property is about guards,
  early returns, references, the figure or the number of iterations, numbers are exact
  rationals: rounding has no part in it. Where a property is about the values of the
  running sums (the depth curve, the total volumes under a permutation), numbers are
  Python's integers and binary floats with their rounding, in the sections on Python's
  numbers below. On integers the two models agree.
\<close>

type_synonym level = "rat \<times> rat"

text \<open>
  \<open>InvalidInput\<close> and \<open>EmptyBook\<close> are the error kinds the design document names for the
  order-book computation; \<open>KeyError\<close> is what Python raises for a dictionary key that is
  missing, \<open>ZeroDivisionError\<close> what a division by zero raises, \<open>TypeError\<close> what an
  operation on an object of the wrong kind raises, \<open>OverflowError\<close> what the conversion
  of an integer too large for a float raises.
\<close>

datatype error =
  InvalidInput | EmptyBook | KeyError string | ZeroDivisionError | TypeError | OverflowError

section \<open>The running cumulative sum\<close>

text \<open>
  \<^verbatim>\<open>
  bid_cumulative = []
  cumsum = 0
  for vol in bid_volumes:
      cumsum += vol
      bid_cumulative.append(cumsum)
  \<close>
  The loop state is the running total \<open>cumsum\<close> and the list built so far; each
  iteration adds the volume and appends the new total. This is the loop on exact
  quantities; \<open>cumsum_loop_num\<close> below is the loop on Python's numbers.
\<close>

fun cumsum_loop :: "rat \<Rightarrow> rat list \<Rightarrow> rat list \<Rightarrow> rat list" where
  "cumsum_loop cumsum cumulative [] = cumulative"
| "cumsum_loop cumsum cumulative (vol # vols) =
     cumsum_loop (cumsum + vol) (cumulative @ [cumsum + vol]) vols"

text \<open>
  The depth curve of one side as the code computes it (the same statements serve bids
  and asks, in \<^verbatim>\<open>create_orderbook_depth_chart\<close> and in \<^verbatim>\<open>create_combined_chart\<close>):
  \<^verbatim>\<open>
  bid_prices = [price for price, _ in bids]
  bid_volumes = [qty for _, qty in bids]
  \<close>
  followed by the loop above. The two resulting lists are the x and y data of the
  depth trace. On exact quantities no statement of this computation raises.
\<close>

record depth_curve =
  prices :: "rat list"
  cumulative :: "rat list"

definition computeDepthCurve :: "level list \<Rightarrow> error + depth_curve" where
  "computeDepthCurve levels =
     (let level_prices = map fst levels;
          level_volumes = map snd levels;
          level_cumulative = cumsum_loop 0 [] level_volumes
      in Inr \<lparr>prices = level_prices, cumulative = level_cumulative\<rparr>)"

section \<open>Book statistics\<close>

text \<open>
  \<^verbatim>\<open>sum(...)\<close> of Python starts from 0 and adds the elements from left to right.
\<close>

definition py_sum :: "rat list \<Rightarrow> rat" where
  "py_sum xs = foldl (+) 0 xs"

text \<open>
  \<^verbatim>\<open>
  bid_volume = sum(qty for _, qty in bids)
  ask_volume = sum(qty for _, qty in asks)
  imbalance = bid_volume / ask_volume if ask_volume > 0 else 0
  spread = asks[0][0] - bids[0][0] if asks and bids else 0
  \<close>
  The division and the two index reads are guarded by their conditions, so no statement
  raises. The symbol of the snapshot plays no part in the four values.
\<close>

record book_statistics =
  bidVolume :: rat
  askVolume :: rat
  volumeRatio :: rat
  spread :: rat

definition computeStatistics :: "level list \<Rightarrow> level list \<Rightarrow> error + book_statistics" where
  "computeStatistics bids asks =
     (let bid_volume = py_sum (map snd bids);
          ask_volume = py_sum (map snd asks);
          imbalance = (if ask_volume > 0 then bid_volume / ask_volume else 0)
      in Inr \<lparr>bidVolume = bid_volume, askVolume = ask_volume, volumeRatio = imbalance,
              spread = (if asks \<noteq> [] \<and> bids \<noteq> [] then fst (asks ! 0) - fst (bids ! 0) else 0)\<rparr>)"

text \<open>
  Modelled from the spec: the spread percentage. The source computes none (the only
  place that mentions one, \<^verbatim>\<open>add_orderbook_overlay\<close>, reads a precomputed
  \<^verbatim>\<open>spread_pct\<close> entry); the specification defines it as
  "spread / best_bid * 100". It is undefined (\<open>None\<close>) where there is no best bid to
  divide by.
\<close>

definition spreadPct :: "level list \<Rightarrow> level list \<Rightarrow> rat option" where
  "spreadPct bids asks =
     (case (bids, computeStatistics bids asks) of
        (best_bid # _, Inr st) \<Rightarrow>
          if fst best_bid = 0 then None else Some (spread st / fst best_bid * 100)
      | _ \<Rightarrow> None)"

section \<open>Figures\<close>

text \<open>
  A Plotly figure, reduced to what the functions below add to it: traces, shapes,
  annotations and the layout title. Times are minutes on the rational line, so that
  \<^verbatim>\<open>pd.Timedelta(minutes=m)\<close> is the number \<open>m\<close>.
\<close>

datatype trace = Scatter (trace_x: "rat list") (trace_y: "rat list") (trace_name: string)

datatype shape =
    Rect (x0: rat) (x1: rat) (y0: rat) (y1: rat) (fillcolor: string)
  | VLine (line_x: rat) (line_color: string)

datatype annotation =
    Annotation (ann_x: rat) (ann_y: rat) (ann_text: string)
  | VLineLabel (label_x: rat) (label_text: string)

datatype title = DepthTitle (title_symbol: string) (title_spread: rat) (title_ratio: rat)

record figure =
  traces :: "trace list"
  shapes :: "shape list"
  annotations :: "annotation list"
  layout_title :: "title option"

definition Figure :: figure where
  "Figure = \<lparr>traces = [], shapes = [], annotations = [], layout_title = None\<rparr>"

definition add_trace :: "figure \<Rightarrow> trace \<Rightarrow> figure" where
  "add_trace fig t = fig\<lparr>traces := traces fig @ [t]\<rparr>"

definition add_shape :: "figure \<Rightarrow> shape \<Rightarrow> figure" where
  "add_shape fig sh = fig\<lparr>shapes := shapes fig @ [sh]\<rparr>"

definition add_annotation :: "figure \<Rightarrow> annotation \<Rightarrow> figure" where
  "add_annotation fig a = fig\<lparr>annotations := annotations fig @ [a]\<rparr>"

text \<open>\<^verbatim>\<open>add_vline\<close> draws the line as a shape and its text as an annotation.\<close>

definition add_vline :: "figure \<Rightarrow> rat \<Rightarrow> string \<Rightarrow> string \<Rightarrow> figure" where
  "add_vline fig x color text =
     add_annotation (add_shape fig (VLine x color)) (VLineLabel x text)"

definition update_layout :: "figure \<Rightarrow> title \<Rightarrow> figure" where
  "update_layout fig t = fig\<lparr>layout_title := Some t\<rparr>"

section \<open>Footprint markers\<close>

record footprint_row =
  datetime :: rat
  low :: rat
  high :: rat
  is_aggressive_buy :: bool
  is_aggressive_sell :: bool
  is_trap :: bool

text \<open>The warning sign U+26A0 of the trap label, as its three UTF-8 bytes.\<close>

definition warning_sign :: string where
  "warning_sign = [CHR 0xE2, CHR 0x9A, CHR 0xA0]"

text \<open>
  One iteration of \<^verbatim>\<open>for idx, trap in traps.iterrows()\<close>: the yellow rectangle of
  7.5 minutes on each side, then the warning label.
\<close>

definition add_trap :: "footprint_row \<Rightarrow> figure \<Rightarrow> figure" where
  "add_trap trap fig =
     add_annotation
       (add_shape fig
          (Rect (datetime trap - 15 / 2) (datetime trap + 15 / 2) (low trap) (high trap)
             ''rgba(255, 255, 0, 0.3)''))
       (Annotation (datetime trap) (high trap) warning_sign)"

text \<open>
  \<^verbatim>\<open>
  def add_footprint_markers(self, fig, footprint_df):
      if footprint_df is None or len(footprint_df) == 0:
          return fig
      aggressive_buys = footprint_df[footprint_df['is_aggressive_buy']]
      if len(aggressive_buys) > 0:
          fig.add_trace(go.Scatter(x=aggressive_buys['datetime'], y=aggressive_buys['low'], ...))
      aggressive_sells = footprint_df[footprint_df['is_aggressive_sell']]
      if len(aggressive_sells) > 0:
          fig.add_trace(go.Scatter(x=aggressive_sells['datetime'], y=aggressive_sells['high'], ...))
      traps = footprint_df[footprint_df['is_trap']]
      for idx, trap in traps.iterrows():
          fig.add_shape(...); fig.add_annotation(...)
      return fig
  \<close>
  The data frame is a list of rows, \<open>None\<close> for Python's \<^verbatim>\<open>None\<close>. The figure is
  mutated in place by the source; the model returns the figure after the calls.
\<close>

definition add_footprint_markers :: "figure \<Rightarrow> footprint_row list option \<Rightarrow> figure" where
  "add_footprint_markers fig footprint_df =
     (case footprint_df of
        None \<Rightarrow> fig
      | Some rows \<Rightarrow>
          if length rows = 0 then fig
          else
            let aggressive_buys = filter is_aggressive_buy rows;
                fig1 = (if length aggressive_buys > 0
                        then add_trace fig
                               (Scatter (map datetime aggressive_buys) (map low aggressive_buys)
                                  ''Aggressive Buy'')
                        else fig);
                aggressive_sells = filter is_aggressive_sell rows;
                fig2 = (if length aggressive_sells > 0
                        then add_trace fig1
                               (Scatter (map datetime aggressive_sells) (map high aggressive_sells)
                                  ''Aggressive Sell'')
                        else fig1);
                traps = filter is_trap rows
            in fold add_trap traps fig2)"

section \<open>Order-flow profile\<close>

record profile_row =
  buy_volume :: rat
  sell_volume :: rat
  price_bottom :: rat
  price_top :: rat

text \<open>Python's division raises on a zero divisor.\<close>

definition py_div :: "rat \<Rightarrow> rat \<Rightarrow> error + rat" where
  "py_div a b = (if b = 0 then Inl ZeroDivisionError else Inr (a / b))"

text \<open>
  \<^verbatim>\<open>max(profile_df['buy_volume'].max(), profile_df['sell_volume'].max())\<close> of a frame
  with first row \<open>row\<close> and further rows \<open>rows\<close>.
\<close>

definition profile_max_vol :: "profile_row \<Rightarrow> profile_row list \<Rightarrow> rat" where
  "profile_max_vol row rows =
     max (fold max (map buy_volume rows) (buy_volume row))
         (fold max (map sell_volume rows) (sell_volume row))"

text \<open>
  The two bar loops differ in the column read, the start of the bars and the colour:
  \<^verbatim>\<open>
  for idx, row in profile_df.iterrows():
      if row['buy_volume'] > 0:
          width = (row['buy_volume'] / max_vol) * profile_scale
          bar_start = current_time + time_offset
          bar_end = bar_start + pd.Timedelta(minutes=width * 15)
          fig.add_shape(type="rect", x0=bar_start, x1=bar_end,
                        y0=row['price_bottom'], y1=row['price_top'], ...)
  \<close>
  A raised division leaves the loop at once.
\<close>

fun volume_bars ::
  "(profile_row \<Rightarrow> rat) \<Rightarrow> string \<Rightarrow> rat \<Rightarrow> rat \<Rightarrow> rat \<Rightarrow> profile_row list \<Rightarrow> figure
     \<Rightarrow> error + figure" where
  "volume_bars column color max_vol profile_scale bar_start [] fig = Inr fig"
| "volume_bars column color max_vol profile_scale bar_start (row # rows) fig =
     (if column row > 0 then
        (case py_div (column row) max_vol of
           Inl e \<Rightarrow> Inl e
         | Inr ratio \<Rightarrow>
             let width = ratio * profile_scale;
                 bar_end = bar_start + width * 15
             in volume_bars column color max_vol profile_scale bar_start rows
                  (add_shape fig
                     (Rect bar_start bar_end (price_bottom row) (price_top row) color)))
      else volume_bars column color max_vol profile_scale bar_start rows fig)"

text \<open>
  \<^verbatim>\<open>
  def add_order_flow_profile(self, fig, profile_df, current_time, profile_scale=20, offset=5):
      if profile_df is None or len(profile_df) == 0:
          return fig
      max_vol = max(profile_df['buy_volume'].max(), profile_df['sell_volume'].max())
      if max_vol == 0:
          return fig
      time_offset = pd.Timedelta(minutes=offset * 15)
      ... buy loop ...
      sell_offset = time_offset + pd.Timedelta(minutes=(profile_scale + 2) * 15)
      ... sell loop ...
      return fig
  \<close>
\<close>

definition add_order_flow_profile ::
  "figure \<Rightarrow> profile_row list option \<Rightarrow> rat \<Rightarrow> rat \<Rightarrow> rat \<Rightarrow> error + figure" where
  "add_order_flow_profile fig profile_df current_time profile_scale offset =
     (case profile_df of
        None \<Rightarrow> Inr fig
      | Some [] \<Rightarrow> Inr fig
      | Some (row # rows) \<Rightarrow>
          let max_vol = profile_max_vol row rows in
          if max_vol = 0 then Inr fig
          else
            let time_offset = offset * 15 in
            (case volume_bars buy_volume ''rgba(0, 255, 187, 0.7)'' max_vol profile_scale
                    (current_time + time_offset) (row # rows) fig of
               Inl e \<Rightarrow> Inl e
             | Inr fig1 \<Rightarrow>
                 let sell_offset = time_offset + (profile_scale + 2) * 15
                 in volume_bars sell_volume ''rgba(255, 17, 0, 0.7)'' max_vol profile_scale
                      (current_time + sell_offset) (row # rows) fig1))"

section \<open>The order-book depth chart\<close>

text \<open>
  The snapshot dictionary \<^verbatim>\<open>{symbol: ..., bids: [[price, qty], ...], asks: ...}\<close>: each
  of the three keys is present or not, and \<open>None\<close> stands for Python's \<^verbatim>\<open>None\<close> in
  place of the dictionary. A dictionary is falsy when it has no key.
\<close>

record orderbook_dict =
  symbol :: "string option"
  bids :: "level list option"
  asks :: "level list option"

definition falsy :: "orderbook_dict option \<Rightarrow> bool" where
  "falsy orderbook_data =
     (case orderbook_data of
        None \<Rightarrow> True
      | Some d \<Rightarrow> symbol d = None \<and> bids d = None \<and> asks d = None)"

text \<open>
  What the function does to the world: the files it writes (the figure stands for the
  HTML written from it), the lines it prints, and the number of figures it has
  constructed with \<^verbatim>\<open>go.Figure()\<close>.
\<close>

record world =
  files :: "string \<rightharpoonup> figure"
  stdout :: "string list"
  constructed :: nat

definition no_data_message :: string where
  "no_data_message = warning_sign @ '' No order book data available''"

text \<open>The line printed on success starts with a newline and the check mark U+2713.\<close>

definition saved_message :: "string \<Rightarrow> string" where
  "saved_message output_file =
     [CHR 0x0A, CHR 0xE2, CHR 0x9C, CHR 0x93] @ '' Order book depth chart saved to: ''
       @ output_file"

text \<open>
  \<^verbatim>\<open>create_orderbook_depth_chart\<close>, statement by statement: the early return on a falsy
  snapshot, the two key reads, the cumulative curves, the figure with its two depth
  traces and the best bid and ask lines, the statistics for the title (whose
  \<^verbatim>\<open>orderbook_data["symbol"]\<close> is the third key read), the file written and the line
  printed. The number formatting of the title is not modelled.
\<close>

definition create_orderbook_depth_chart ::
  "orderbook_dict option \<Rightarrow> string \<Rightarrow> world \<Rightarrow> (error + string option) \<times> world" where
  "create_orderbook_depth_chart orderbook_data output_file w =
     (if falsy orderbook_data then (Inr None, w\<lparr>stdout := stdout w @ [no_data_message]\<rparr>)
      else
        (case orderbook_data of
           None \<Rightarrow> (Inr None, w\<lparr>stdout := stdout w @ [no_data_message]\<rparr>)
         | Some d \<Rightarrow>
        (case bids d of
           None \<Rightarrow> (Inl (KeyError ''bids''), w)
         | Some bid_levels \<Rightarrow>
        (case asks d of
           None \<Rightarrow> (Inl (KeyError ''asks''), w)
         | Some ask_levels \<Rightarrow>
        (case computeDepthCurve bid_levels of
           Inl e \<Rightarrow> (Inl e, w)
         | Inr bid_curve \<Rightarrow>
        (case computeDepthCurve ask_levels of
           Inl e \<Rightarrow> (Inl e, w)
         | Inr ask_curve \<Rightarrow>
            let w1 = w\<lparr>constructed := constructed w + 1\<rparr>;
                fig1 = add_trace Figure
                         (Scatter (prices bid_curve) (cumulative bid_curve) ''Bid Depth'');
                fig2 = add_trace fig1
                         (Scatter (prices ask_curve) (cumulative ask_curve) ''Ask Depth'');
                fig3 = (if bid_levels \<noteq> []
                        then add_vline fig2 (fst (bid_levels ! 0)) ''green'' ''Best Bid''
                        else fig2);
                fig4 = (if ask_levels \<noteq> []
                        then add_vline fig3 (fst (ask_levels ! 0)) ''red'' ''Best Ask''
                        else fig3)
            in
        (case computeStatistics bid_levels ask_levels of
           Inl e \<Rightarrow> (Inl e, w1)
         | Inr st \<Rightarrow>
        (case symbol d of
           None \<Rightarrow> (Inl (KeyError ''symbol''), w1)
         | Some symbol_text \<Rightarrow>
            let fig5 = update_layout fig4 (DepthTitle symbol_text (spread st) (volumeRatio st));
                w2 = w1\<lparr>files := (files w1)(output_file \<mapsto> fig5)\<rparr>;
                w3 = w2\<lparr>stdout := stdout w2 @ [saved_message output_file]\<rparr>
            in (Inr (Some output_file), w3)))))))))"

section \<open>The computation on Python's mutable lists\<close>

text \<open>
  Python lists are objects that are shared by reference and mutated in place. The store
  holds the list objects; a reference is an index into it. \<^verbatim>\<open>bids\<close> and \<^verbatim>\<open>asks\<close> are
  references to the lists of the caller's snapshot; every list comprehension and every
  \<^verbatim>\<open>[]\<close> makes a new object, and \<^verbatim>\<open>append\<close> changes the object it is called on.
\<close>

datatype pyobj = LevelList "level list" | NumList "rat list"

type_synonym store = "pyobj list"

definition lookup :: "store \<Rightarrow> nat \<Rightarrow> pyobj option" where
  "lookup s a = (if a < length s then Some (s ! a) else None)"

definition new_list :: "pyobj \<Rightarrow> store \<Rightarrow> nat \<times> store" where
  "new_list obj s = (length s, s @ [obj])"

definition list_append :: "nat \<Rightarrow> rat \<Rightarrow> store \<Rightarrow> error + store" where
  "list_append a v s =
     (case lookup s a of
        Some (NumList xs) \<Rightarrow> Inr (s[a := NumList (xs @ [v])])
      | _ \<Rightarrow> Inl TypeError)"

text \<open>
  \<^verbatim>\<open>for vol in bid_volumes: cumsum += vol; bid_cumulative.append(cumsum)\<close> as Python
  runs it: the iterator keeps an index \<open>k\<close> into the list object and asks, before each
  iteration, whether the object (as it is then) still has an element at \<open>k\<close>. Each test
  of the iterator takes one unit of fuel; \<open>None\<close> is a run that has not finished within
  its fuel. The result is the final \<open>cumsum\<close>, the store and the number of iterations.
\<close>

fun for_vol ::
  "nat \<Rightarrow> nat \<Rightarrow> nat \<Rightarrow> nat \<Rightarrow> rat \<Rightarrow> store \<Rightarrow> (error + rat \<times> store \<times> nat) option" where
  "for_vol 0 volumes_ref cumulative_ref k cumsum s = None"
| "for_vol (Suc fuel) volumes_ref cumulative_ref k cumsum s =
     (case lookup s volumes_ref of
        Some (NumList vols) \<Rightarrow>
          if k < length vols then
            (let cumsum' = cumsum + vols ! k in
             case list_append cumulative_ref cumsum' s of
               Inl e \<Rightarrow> Some (Inl e)
             | Inr s' \<Rightarrow>
                 (case for_vol fuel volumes_ref cumulative_ref (Suc k) cumsum' s' of
                    None \<Rightarrow> None
                  | Some (Inl e) \<Rightarrow> Some (Inl e)
                  | Some (Inr (final_cumsum, s'', n)) \<Rightarrow> Some (Inr (final_cumsum, s'', Suc n))))
          else Some (Inr (cumsum, s, 0))
      | _ \<Rightarrow> Some (Inl TypeError))"

text \<open>
  One side of the book: the two comprehensions, the empty list and the loop. The
  result is the references of the price list and of the cumulative list, the store and
  the number of loop iterations.
\<close>

definition cumulative_volumes ::
  "nat \<Rightarrow> nat \<Rightarrow> store \<Rightarrow> (error + nat \<times> nat \<times> store \<times> nat) option" where
  "cumulative_volumes fuel levels_ref s =
     (case lookup s levels_ref of
        Some (LevelList levels) \<Rightarrow>
          (let (side_prices, s1) = new_list (NumList (map fst levels)) s;
               (side_volumes, s2) = new_list (NumList (map snd levels)) s1;
               (side_cumulative, s3) = new_list (NumList []) s2
           in case for_vol fuel side_volumes side_cumulative 0 0 s3 of
                None \<Rightarrow> None
              | Some (Inl e) \<Rightarrow> Some (Inl e)
              | Some (Inr (final_cumsum, s4, n)) \<Rightarrow> Some (Inr (side_prices, side_cumulative, s4, n)))
      | _ \<Rightarrow> Some (Inl TypeError))"

text \<open>
  The statistics read the lists behind \<^verbatim>\<open>bids\<close> and \<^verbatim>\<open>asks\<close> again, as they are in
  the store after the loops.
\<close>

definition statistics_of_store :: "nat \<Rightarrow> nat \<Rightarrow> store \<Rightarrow> error + book_statistics" where
  "statistics_of_store bids_ref asks_ref s =
     (case (lookup s bids_ref, lookup s asks_ref) of
        (Some (LevelList bid_levels), Some (LevelList ask_levels)) \<Rightarrow>
          computeStatistics bid_levels ask_levels
      | _ \<Rightarrow> Inl TypeError)"

record depth_result =
  bid_prices :: nat
  bid_cumulative :: nat
  ask_prices :: nat
  ask_cumulative :: nat
  statistics :: book_statistics
  loop_steps :: nat

text \<open>
  The cumulative volumes of both sides and the statistics, in the order of the source
  (the calls that draw the figure, which lie between them, touch none of these lists).
\<close>

definition depth_and_statistics ::
  "nat \<Rightarrow> nat \<Rightarrow> nat \<Rightarrow> store \<Rightarrow> (error + depth_result \<times> store) option" where
  "depth_and_statistics fuel bids_ref asks_ref s =
     (case cumulative_volumes fuel bids_ref s of
        None \<Rightarrow> None
      | Some (Inl e) \<Rightarrow> Some (Inl e)
      | Some (Inr (bid_prices_ref, bid_cumulative_ref, s1, n1)) \<Rightarrow>
     (case cumulative_volumes fuel asks_ref s1 of
        None \<Rightarrow> None
      | Some (Inl e) \<Rightarrow> Some (Inl e)
      | Some (Inr (ask_prices_ref, ask_cumulative_ref, s2, n2)) \<Rightarrow>
     (case statistics_of_store bids_ref asks_ref s2 of
        Inl e \<Rightarrow> Some (Inl e)
      | Inr st \<Rightarrow>
          Some (Inr (\<lparr>bid_prices = bid_prices_ref, bid_cumulative = bid_cumulative_ref,
                      ask_prices = ask_prices_ref, ask_cumulative = ask_cumulative_ref,
                      statistics = st, loop_steps = n1 + n2\<rparr>, s2)))))"

text \<open>
  The three list objects that the statements of one side add to the store: the prices,
  the volumes and the cumulative volumes.
\<close>

definition side_objects :: "level list \<Rightarrow> store" where
  "side_objects levels =
     [NumList (map fst levels), NumList (map snd levels),
      NumList (cumsum_loop 0 [] (map snd levels))]"


section \<open>Python's numbers\<close>

text \<open>
  A quantity of an order book is a Python \<^verbatim>\<open>int\<close> or \<^verbatim>\<open>float\<close>. An \<^verbatim>\<open>int\<close> is an
  unbounded integer. A \<^verbatim>\<open>float\<close> is an IEEE 754 binary64 number: a finite value, which
  is a rational \<open>m * 2 ^ q\<close> with \<open>\<bar>m\<bar> < 2 ^ 53\<close> and \<open>- 1074 \<le> q\<close>, an infinity or a
  NaN. The two zeros of binary64 are one value here; they differ in no sum, comparison
  or quotient of this file.
\<close>

datatype pyfloat = Finite rat | PosInf | NegInf | NaN

datatype pynum = PInt int | PFloat pyfloat

text \<open>The exponent \<open>e\<close> with \<open>2 ^ e \<le> a < 2 ^ (e + 1)\<close>, for \<open>0 < a\<close>.\<close>

definition binary_exponent :: "rat \<Rightarrow> int" where
  "binary_exponent a =
     (if 1 \<le> a then bitlen \<lfloor>a\<rfloor> - 1 else - bitlen (\<lceil>1 / a\<rceil> - 1))"

text \<open>The nearest integer, the even one of the two when they are equally near.\<close>

definition round_half_even :: "rat \<Rightarrow> int" where
  "round_half_even y =
     (let f = \<lfloor>y\<rfloor>; d = y - of_int f
      in if d < 1 / 2 then f else if 1 / 2 < d then f + 1 else if even f then f else f + 1)"

text \<open>
  Rounding to binary64, to nearest with ties to even: the value is rounded to a
  multiple of \<open>2 ^ q\<close>, where \<open>q\<close> leaves 53 bits for the significand and is at least
  \<open>- 1074\<close>; a result of \<open>2 ^ 1024\<close> or more in magnitude is an infinity.
\<close>

definition round_double :: "rat \<Rightarrow> pyfloat" where
  "round_double x =
     (if x = 0 then Finite 0
      else
        let q = max (binary_exponent \<bar>x\<bar> - 52) (- 1074);
            r = of_int (round_half_even (x / 2 powi q)) * 2 powi q
        in if r = 0 then Finite 0
           else if 1023 < binary_exponent \<bar>r\<bar> then (if 0 < x then PosInf else NegInf)
           else Finite r)"

text \<open>Addition of two floats: the exact sum, rounded; no float addition raises.\<close>

fun float_add :: "pyfloat \<Rightarrow> pyfloat \<Rightarrow> pyfloat" where
  "float_add (Finite a) (Finite b) = round_double (a + b)"
| "float_add NaN g = NaN"
| "float_add f NaN = NaN"
| "float_add PosInf NegInf = NaN"
| "float_add NegInf PosInf = NaN"
| "float_add PosInf g = PosInf"
| "float_add f PosInf = PosInf"
| "float_add NegInf g = NegInf"
| "float_add f NegInf = NegInf"

text \<open>
  \<^verbatim>\<open>float(n)\<close> of an integer, as every mixed operation applies it to its integer
  operand: the nearest float, and \<^verbatim>\<open>OverflowError\<close> when there is none.
\<close>

definition int_to_float :: "int \<Rightarrow> error + pyfloat" where
  "int_to_float n =
     (case round_double (of_int n) of
        Finite r \<Rightarrow> Inr (Finite r)
      | _ \<Rightarrow> Inl OverflowError)"

text \<open>Python's \<^verbatim>\<open>+\<close>: exact on two integers, float addition otherwise.\<close>

fun py_add :: "pynum \<Rightarrow> pynum \<Rightarrow> error + pynum" where
  "py_add (PInt a) (PInt b) = Inr (PInt (a + b))"
| "py_add (PFloat f) (PFloat g) = Inr (PFloat (float_add f g))"
| "py_add (PInt a) (PFloat g) =
     (case int_to_float a of Inl e \<Rightarrow> Inl e | Inr f \<Rightarrow> Inr (PFloat (float_add f g)))"
| "py_add (PFloat f) (PInt b) =
     (case int_to_float b of Inl e \<Rightarrow> Inl e | Inr g \<Rightarrow> Inr (PFloat (float_add f g)))"

section \<open>The depth curve on Python's numbers\<close>

text \<open>
  The loop of the running cumulative sum, with \<^verbatim>\<open>cumsum += vol\<close> as Python's addition;
  \<open>appended\<close> is the list \<^verbatim>\<open>bid_cumulative\<close> as built so far. An addition that raises
  ends the loop with its error.
\<close>

fun cumsum_loop_num :: "pynum \<Rightarrow> pynum list \<Rightarrow> pynum list \<Rightarrow> error + pynum list" where
  "cumsum_loop_num cumsum appended [] = Inr appended"
| "cumsum_loop_num cumsum appended (vol # vols) =
     (case py_add cumsum vol of
        Inl e \<Rightarrow> Inl e
      | Inr cumsum' \<Rightarrow> cumsum_loop_num cumsum' (appended @ [cumsum']) vols)"

record depth_curve_num =
  num_prices :: "pynum list"
  num_cumulative :: "pynum list"

text \<open>
  The depth curve of one side as the code computes it: the two comprehensions, then
  the loop from \<^verbatim>\<open>cumsum = 0\<close> and \<^verbatim>\<open>bid_cumulative = []\<close>.
\<close>

definition computeDepthCurve_num :: "(pynum \<times> pynum) list \<Rightarrow> error + depth_curve_num" where
  "computeDepthCurve_num levels =
     (let level_prices = map fst levels;
          level_volumes = map snd levels
      in case cumsum_loop_num (PInt 0) [] level_volumes of
           Inl e \<Rightarrow> Inl e
         | Inr level_cumulative \<Rightarrow>
             Inr \<lparr>num_prices = level_prices, num_cumulative = level_cumulative\<rparr>)"

text \<open>Levels whose quantities are Python integers.\<close>

definition int_levels :: "(pynum \<times> int) list \<Rightarrow> (pynum \<times> pynum) list" where
  "int_levels levels = map (\<lambda>(price, qty). (price, PInt qty)) levels"

text \<open>The running sums of a list of integers, from a starting total.\<close>

fun running_sums :: "int \<Rightarrow> int list \<Rightarrow> int list" where
  "running_sums c [] = []"
| "running_sums c (n # ns) = (c + n) # running_sums (c + n) ns"

section \<open>The volumes on Python's numbers\<close>

text \<open>
  Adding the elements of a list to a starting total from left to right, one Python
  addition each.
\<close>

fun py_sum_from :: "pynum \<Rightarrow> pynum list \<Rightarrow> error + pynum" where
  "py_sum_from acc [] = Inr acc"
| "py_sum_from acc (x # xs) =
     (case py_add acc x of Inl e \<Rightarrow> Inl e | Inr acc' \<Rightarrow> py_sum_from acc' xs)"

text \<open>
  \<^verbatim>\<open>sum(...)\<close> starts from the integer 0 and adds the elements from left to right. On
  integers that is the exact sum. (On floats, CPython from 3.12 on compensates the
  rounding of the additions; the plain additions here are those of the versions before.
  The theorems about \<open>py_sum_num\<close> below are about integers only.)
\<close>

definition py_sum_num :: "pynum list \<Rightarrow> error + pynum" where
  "py_sum_num xs = py_sum_from (PInt 0) xs"

text \<open>\<^verbatim>\<open>x > 0\<close>: false for a NaN.\<close>

fun num_positive :: "pynum \<Rightarrow> bool" where
  "num_positive (PInt a) = (0 < a)"
| "num_positive (PFloat (Finite r)) = (0 < r)"
| "num_positive (PFloat PosInf) = True"
| "num_positive (PFloat NegInf) = False"
| "num_positive (PFloat NaN) = False"

text \<open>
  Division of two floats: a zero divisor raises; otherwise the exact quotient, rounded.
\<close>

fun float_div :: "pyfloat \<Rightarrow> pyfloat \<Rightarrow> error + pyfloat" where
  "float_div f (Finite b) =
     (if b = 0 then Inl ZeroDivisionError
      else Inr (case f of
                  Finite a \<Rightarrow> round_double (a / b)
                | PosInf \<Rightarrow> (if 0 < b then PosInf else NegInf)
                | NegInf \<Rightarrow> (if 0 < b then NegInf else PosInf)
                | NaN \<Rightarrow> NaN))"
| "float_div f NaN = Inr NaN"
| "float_div (Finite a) g = Inr (Finite 0)"
| "float_div f g = Inr NaN"

text \<open>
  Python's \<^verbatim>\<open>/\<close>: the quotient of two integers is the float nearest to the exact
  quotient, and \<^verbatim>\<open>OverflowError\<close> when there is none; with a float operand, the
  integer operand is converted first.
\<close>

fun py_truediv :: "pynum \<Rightarrow> pynum \<Rightarrow> error + pynum" where
  "py_truediv (PInt a) (PInt b) =
     (if b = 0 then Inl ZeroDivisionError
      else (case round_double (of_int a / of_int b) of
              Finite r \<Rightarrow> Inr (PFloat (Finite r))
            | _ \<Rightarrow> Inl OverflowError))"
| "py_truediv (PFloat f) (PFloat g) =
     (case float_div f g of Inl e \<Rightarrow> Inl e | Inr h \<Rightarrow> Inr (PFloat h))"
| "py_truediv (PInt a) (PFloat g) =
     (case int_to_float a of
        Inl e \<Rightarrow> Inl e
      | Inr f \<Rightarrow> (case float_div f g of Inl e \<Rightarrow> Inl e | Inr h \<Rightarrow> Inr (PFloat h)))"
| "py_truediv (PFloat f) (PInt b) =
     (case int_to_float b of
        Inl e \<Rightarrow> Inl e
      | Inr g \<Rightarrow> (case float_div f g of Inl e \<Rightarrow> Inl e | Inr h \<Rightarrow> Inr (PFloat h)))"

record volumes_num =
  num_bidVolume :: pynum
  num_askVolume :: pynum
  num_volumeRatio :: pynum

text \<open>
  \<^verbatim>\<open>
  bid_volume = sum(qty for _, qty in bids)
  ask_volume = sum(qty for _, qty in asks)
  imbalance = bid_volume / ask_volume if ask_volume > 0 else 0
  \<close>
  on Python's numbers.
\<close>

definition computeVolumes_num ::
  "(pynum \<times> pynum) list \<Rightarrow> (pynum \<times> pynum) list \<Rightarrow> error + volumes_num" where
  "computeVolumes_num bid_levels ask_levels =
     (case py_sum_num (map snd bid_levels) of
        Inl e \<Rightarrow> Inl e
      | Inr bid_volume \<Rightarrow>
     (case py_sum_num (map snd ask_levels) of
        Inl e \<Rightarrow> Inl e
      | Inr ask_volume \<Rightarrow>
     (case (if num_positive ask_volume then py_truediv bid_volume ask_volume
            else Inr (PInt 0)) of
        Inl e \<Rightarrow> Inl e
      | Inr imbalance \<Rightarrow>
          Inr \<lparr>num_bidVolume = bid_volume, num_askVolume = ask_volume,
               num_volumeRatio = imbalance\<rparr>)))"

section \<open>Properties of the cumulative loop\<close>

lemma cumsum_loop_append: "cumsum_loop c acc vols = acc @ cumsum_loop c [] vols"
proof (induction vols arbitrary: c acc)
  case Nil
  show ?case by simp
next
  case (Cons v vs)
  have "cumsum_loop c acc (v # vs) = cumsum_loop (c + v) (acc @ [c + v]) vs" by simp
  also have "\<dots> = (acc @ [c + v]) @ cumsum_loop (c + v) [] vs" by (rule Cons.IH)
  also have "\<dots> = acc @ ([] @ [c + v]) @ cumsum_loop (c + v) [] vs" by simp
  also have "([] @ [c + v]) @ cumsum_loop (c + v) [] vs = cumsum_loop (c + v) ([] @ [c + v]) vs"
    by (rule Cons.IH [symmetric])
  finally show ?case by simp
qed

lemma cumsum_loop_Cons:
  "cumsum_loop c [] (v # vs) = (c + v) # cumsum_loop (c + v) [] vs"
  using cumsum_loop_append [of "c + v" "[c + v]" vs] by simp

text \<open>
  On integer quantities, where Python adds exactly, the exact loop computes the running
  sums of the loop on Python's numbers.
\<close>

lemma cumsum_loop_int:
  "cumsum_loop (of_int c) [] (map of_int ns) = map of_int (running_sums c ns)"
proof (induction ns arbitrary: c)
  case Nil
  show ?case by simp
next
  case (Cons n ns)
  from Cons.IH [of "c + n"] show ?case
    by (simp add: cumsum_loop_Cons del: cumsum_loop.simps(2))
qed



lemma computeDepthCurve_run:
  "computeDepthCurve levels
     = Inr \<lparr>prices = map fst levels, cumulative = cumsum_loop 0 [] (map snd levels)\<rparr>"
  by (simp add: computeDepthCurve_def)


section \<open>The statistics\<close>



text \<open>
  Claim C4. For bids \<^verbatim>\<open>[[100,2],[99,3]]\<close> and asks \<^verbatim>\<open>[[101,1],[102,4]]\<close> the
  statistics are spread 1, bid volume 5, ask volume 5 and volume ratio 1, and the spread
  percentage of the specification is 1.
\<close>

theorem computeStatistics_example:
  "computeStatistics [(100, 2), (99, 3)] [(101, 1), (102, 4)]
     = Inr \<lparr>bidVolume = 5, askVolume = 5, volumeRatio = 1, spread = 1\<rparr>
   \<and> spreadPct [(100, 2), (99, 3)] [(101, 1), (102, 4)] = Some 1"
  by (simp add: computeStatistics_def spreadPct_def py_sum_def)

section \<open>Early returns\<close>

text \<open>
  Claim C8. For a falsy snapshot (\<^verbatim>\<open>None\<close> or the empty dictionary),
  \<^verbatim>\<open>create_orderbook_depth_chart\<close> returns \<^verbatim>\<open>None\<close>, constructs no figure and
  writes no file.
\<close>

theorem create_orderbook_depth_chart_falsy:
  assumes "orderbook_data = None
           \<or> orderbook_data = Some \<lparr>symbol = None, bids = None, asks = None\<rparr>"
  shows "\<exists>w'. create_orderbook_depth_chart orderbook_data output_file w = (Inr None, w')
              \<and> files w' = files w
              \<and> constructed w' = constructed w"
  using assms by (auto simp: create_orderbook_depth_chart_def falsy_def)

theorem create_orderbook_depth_chart_falsy_witness:
  "create_orderbook_depth_chart None ''orderbook_depth.html''
        \<lparr>files = Map.empty, stdout = [], constructed = 0\<rparr>
     = (Inr None, \<lparr>files = Map.empty, stdout = [no_data_message], constructed = 0\<rparr>)
   \<and> create_orderbook_depth_chart (Some \<lparr>symbol = None, bids = None, asks = None\<rparr>)
        ''orderbook_depth.html'' \<lparr>files = Map.empty, stdout = [], constructed = 0\<rparr>
     = (Inr None, \<lparr>files = Map.empty, stdout = [no_data_message], constructed = 0\<rparr>)"
proof -
  from create_orderbook_depth_chart_falsy [of None "''orderbook_depth.html''"
      "\<lparr>files = Map.empty, stdout = [], constructed = 0\<rparr>"]
  have a: "create_orderbook_depth_chart None ''orderbook_depth.html''
        \<lparr>files = Map.empty, stdout = [], constructed = 0\<rparr>
     = (Inr None, \<lparr>files = Map.empty, stdout = [no_data_message], constructed = 0\<rparr>)"
    by (auto simp: create_orderbook_depth_chart_def falsy_def)
  from create_orderbook_depth_chart_falsy
      [of "Some \<lparr>symbol = None, bids = None, asks = None\<rparr>" "''orderbook_depth.html''"
      "\<lparr>files = Map.empty, stdout = [], constructed = 0\<rparr>"]
  have b: "create_orderbook_depth_chart (Some \<lparr>symbol = None, bids = None, asks = None\<rparr>)
        ''orderbook_depth.html'' \<lparr>files = Map.empty, stdout = [], constructed = 0\<rparr>
     = (Inr None, \<lparr>files = Map.empty, stdout = [no_data_message], constructed = 0\<rparr>)"
    by (auto simp: create_orderbook_depth_chart_def falsy_def)
  from a b show ?thesis by simp
qed

text \<open>
  Claim C10. For a footprint frame that is \<^verbatim>\<open>None\<close> or has no rows,
  \<^verbatim>\<open>add_footprint_markers\<close> returns the figure as it was given: no trace, shape or
  annotation is added.
\<close>

theorem add_footprint_markers_empty:
  assumes "footprint_df = None \<or> footprint_df = Some []"
  shows "add_footprint_markers fig footprint_df = fig"
  using assms by (auto simp: add_footprint_markers_def)

theorem add_footprint_markers_empty_witness:
  "add_footprint_markers Figure None = Figure
   \<and> add_footprint_markers Figure (Some []) = Figure"
  using add_footprint_markers_empty [of None Figure]
    add_footprint_markers_empty [of "Some []" Figure]
  by simp

section \<open>The order-flow profile\<close>

lemma fold_max_ge_init: "(a :: rat) \<le> fold max xs a"
proof (induction xs arbitrary: a)
  case Nil
  show ?case by simp
next
  case (Cons x xs)
  have "a \<le> max x a" by simp
  also have "\<dots> \<le> fold max xs (max x a)" by (rule Cons.IH)
  finally show ?case by simp
qed

lemma fold_max_ge_mem: "x \<in> set xs \<Longrightarrow> (x :: rat) \<le> fold max xs a"
proof (induction xs arbitrary: a)
  case Nil
  then show ?case by simp
next
  case (Cons y ys)
  show ?case
  proof (cases "x = y")
    case True
    have "x \<le> max y a" using True by simp
    also have "\<dots> \<le> fold max ys (max y a)" by (rule fold_max_ge_init)
    finally show ?thesis by simp
  next
    case False
    with Cons.prems have "x \<in> set ys" by simp
    then show ?thesis using Cons.IH by simp
  qed
qed

lemma buy_volume_le_max_vol:
  assumes "r \<in> set (row # rows)"
  shows "buy_volume r \<le> profile_max_vol row rows"
proof -
  have "buy_volume r \<le> fold max (map buy_volume rows) (buy_volume row)"
  proof (cases "r = row")
    case True
    then show ?thesis by (simp add: fold_max_ge_init)
  next
    case False
    with assms have "buy_volume r \<in> set (map buy_volume rows)" by simp
    then show ?thesis by (rule fold_max_ge_mem)
  qed
  then show ?thesis by (simp add: profile_max_vol_def)
qed

lemma sell_volume_le_max_vol:
  assumes "r \<in> set (row # rows)"
  shows "sell_volume r \<le> profile_max_vol row rows"
proof -
  have "sell_volume r \<le> fold max (map sell_volume rows) (sell_volume row)"
  proof (cases "r = row")
    case True
    then show ?thesis by (simp add: fold_max_ge_init)
  next
    case False
    with assms have "sell_volume r \<in> set (map sell_volume rows)" by simp
    then show ?thesis by (rule fold_max_ge_mem)
  qed
  then show ?thesis by (simp add: profile_max_vol_def)
qed

lemma volume_bars_returns:
  "max_vol \<noteq> 0 \<Longrightarrow>
     \<exists>fig'. volume_bars column color max_vol profile_scale bar_start rows fig = Inr fig'"
  by (induction rows arbitrary: fig) (simp_all add: py_div_def Let_def)

lemma volume_bars_no_positive:
  "\<forall>r\<in>set rows. column r \<le> 0 \<Longrightarrow>
     volume_bars column color max_vol profile_scale bar_start rows fig = Inr fig"
  by (induction rows arbitrary: fig) (simp_all add: not_less [symmetric])

lemma volume_bars_zero_max_raises:
  "0 < column row \<Longrightarrow>
     volume_bars column color 0 profile_scale bar_start (row # rows) fig = Inl ZeroDivisionError"
  by (simp add: py_div_def)

lemma add_order_flow_profile_negative_max:
  assumes "profile_max_vol row rows < 0"
  shows "add_order_flow_profile fig (Some (row # rows)) current_time profile_scale offset = Inr fig"
proof -
  have b: "\<forall>r\<in>set (row # rows). buy_volume r \<le> 0"
    using assms buy_volume_le_max_vol [of _ row rows] by (meson less_imp_le order_trans)
  have s: "\<forall>r\<in>set (row # rows). sell_volume r \<le> 0"
    using assms sell_volume_le_max_vol [of _ row rows] by (meson less_imp_le order_trans)
  have nz: "profile_max_vol row rows \<noteq> 0" using assms by simp
  show ?thesis
    unfolding add_order_flow_profile_def
    using nz by (simp add: Let_def volume_bars_no_positive [OF b] volume_bars_no_positive [OF s]
        del: volume_bars.simps)
qed

lemma add_order_flow_profile_returns:
  "\<exists>fig'. add_order_flow_profile fig profile_df current_time profile_scale offset = Inr fig'"
proof (cases profile_df)
  case None
  then show ?thesis by (simp add: add_order_flow_profile_def)
next
  case (Some frame)
  show ?thesis
  proof (cases frame)
    case Nil
    with Some show ?thesis by (simp add: add_order_flow_profile_def)
  next
    case (Cons row rows)
    show ?thesis
    proof (cases "profile_max_vol row rows = 0")
      case True
      with Some Cons show ?thesis by (simp add: add_order_flow_profile_def)
    next
      case False
      from volume_bars_returns [OF False] obtain fig1 where
        f1: "volume_bars buy_volume ''rgba(0, 255, 187, 0.7)'' (profile_max_vol row rows)
               profile_scale (current_time + offset * 15) (row # rows) fig = Inr fig1"
        by blast
      from volume_bars_returns [OF False] obtain fig2 where
        f2: "volume_bars sell_volume ''rgba(255, 17, 0, 0.7)'' (profile_max_vol row rows)
               profile_scale (current_time + (offset * 15 + (profile_scale + 2) * 15))
               (row # rows) fig1 = Inr fig2"
        by blast
      from Some Cons False f1 f2 show ?thesis
        by (simp add: add_order_flow_profile_def Let_def del: volume_bars.simps)
    qed
  qed
qed

text \<open>
  Claim C9. \<^verbatim>\<open>add_order_flow_profile\<close> never divides by zero: it always returns a
  figure, never the error of a zero divisor. When the frame is \<^verbatim>\<open>None\<close> or empty, or
  the maximum of its buy and sell volumes is 0, the figure is returned as it was given;
  whenever a bar has been added, which is the only place a width is computed, the
  maximum volume is positive; and a row whose buy or sell volume is positive, the
  condition under which its width is computed, exists only in a frame whose maximum
  volume is positive.
\<close>

theorem add_order_flow_profile_no_zero_division:
  "add_order_flow_profile fig profile_df current_time profile_scale offset \<noteq> Inl ZeroDivisionError
   \<and> (\<exists>fig'. add_order_flow_profile fig profile_df current_time profile_scale offset = Inr fig'
         \<and> (profile_df = None \<or> profile_df = Some []
              \<or> (\<exists>row rows. profile_df = Some (row # rows) \<and> profile_max_vol row rows = 0)
             \<longrightarrow> fig' = fig)
         \<and> (fig' \<noteq> fig
             \<longrightarrow> (\<exists>row rows. profile_df = Some (row # rows) \<and> 0 < profile_max_vol row rows)))
   \<and> (\<forall>row rows r. profile_df = Some (row # rows) \<and> r \<in> set (row # rows)
                      \<and> (0 < buy_volume r \<or> 0 < sell_volume r)
        \<longrightarrow> 0 < profile_max_vol row rows)"
proof -
  have guard: "\<forall>row rows r. profile_df = Some (row # rows) \<and> r \<in> set (row # rows)
                      \<and> (0 < buy_volume r \<or> 0 < sell_volume r)
        \<longrightarrow> 0 < profile_max_vol row rows"
  proof (intro allI impI)
    fix row rows r
    assume h: "profile_df = Some (row # rows) \<and> r \<in> set (row # rows)
                 \<and> (0 < buy_volume r \<or> 0 < sell_volume r)"
    then have mem: "r \<in> set (row # rows)" by simp
    from h have "0 < buy_volume r \<or> 0 < sell_volume r" by simp
    then show "0 < profile_max_vol row rows"
    proof
      assume "0 < buy_volume r"
      with buy_volume_le_max_vol [OF mem] show ?thesis by simp
    next
      assume "0 < sell_volume r"
      with sell_volume_le_max_vol [OF mem] show ?thesis by simp
    qed
  qed
  from add_order_flow_profile_returns obtain fig' where
    r: "add_order_flow_profile fig profile_df current_time profile_scale offset = Inr fig'"
    by blast
  have early: "profile_df = None \<or> profile_df = Some []
              \<or> (\<exists>row rows. profile_df = Some (row # rows) \<and> profile_max_vol row rows = 0)
             \<longrightarrow> fig' = fig"
    using r by (auto simp: add_order_flow_profile_def)
  have pos: "fig' \<noteq> fig
             \<longrightarrow> (\<exists>row rows. profile_df = Some (row # rows) \<and> 0 < profile_max_vol row rows)"
  proof
    assume changed: "fig' \<noteq> fig"
    with early obtain row rows where
      df: "profile_df = Some (row # rows)" and nz: "profile_max_vol row rows \<noteq> 0"
      by (cases profile_df; cases "the profile_df") auto
    have "\<not> profile_max_vol row rows < 0"
    proof
      assume "profile_max_vol row rows < 0"
      from add_order_flow_profile_negative_max [OF this, of fig current_time profile_scale offset]
      show False using r df changed by simp
    qed
    with nz have "0 < profile_max_vol row rows" by simp
    with df show "\<exists>row rows. profile_df = Some (row # rows) \<and> 0 < profile_max_vol row rows"
      by blast
  qed
  from r early pos guard show ?thesis by simp
qed

theorem add_order_flow_profile_no_zero_division_witness:
  "profile_max_vol \<lparr>buy_volume = 0, sell_volume = 0, price_bottom = 10, price_top = 11\<rparr> [] = 0
   \<and> add_order_flow_profile Figure
        (Some [\<lparr>buy_volume = 0, sell_volume = 0, price_bottom = 10, price_top = 11\<rparr>]) 0 20 5
      = Inr Figure
   \<and> add_order_flow_profile Figure None 0 20 5 = Inr Figure
   \<and> add_order_flow_profile Figure (Some []) 0 20 5 = Inr Figure
   \<and> 0 < profile_max_vol \<lparr>buy_volume = 4, sell_volume = 2, price_bottom = 10, price_top = 11\<rparr> []
   \<and> add_order_flow_profile Figure
        (Some [\<lparr>buy_volume = 4, sell_volume = 2, price_bottom = 10, price_top = 11\<rparr>]) 0 20 5
      = Inr (Figure\<lparr>shapes := [Rect 75 375 10 11 ''rgba(0, 255, 187, 0.7)'',
                                 Rect 405 555 10 11 ''rgba(255, 17, 0, 0.7)'']\<rparr>)"
proof -
  have a: "profile_max_vol \<lparr>buy_volume = 0, sell_volume = 0, price_bottom = 10, price_top = 11\<rparr> [] = 0"
    by (simp add: profile_max_vol_def)
  from add_order_flow_profile_no_zero_division
    [of Figure "Some [\<lparr>buy_volume = 0, sell_volume = 0, price_bottom = 10, price_top = 11\<rparr>]" 0 20 5]
    a
  have b: "add_order_flow_profile Figure
        (Some [\<lparr>buy_volume = 0, sell_volume = 0, price_bottom = 10, price_top = 11\<rparr>]) 0 20 5
      = Inr Figure"
    by auto
  from add_order_flow_profile_no_zero_division [of Figure None 0 20 5]
  have c: "add_order_flow_profile Figure None 0 20 5 = Inr Figure"
    by auto
  from add_order_flow_profile_no_zero_division [of Figure "Some []" 0 20 5]
  have d: "add_order_flow_profile Figure (Some []) 0 20 5 = Inr Figure"
    by auto
  have e: "0 < profile_max_vol \<lparr>buy_volume = 4, sell_volume = 2, price_bottom = 10, price_top = 11\<rparr> []"
    by (simp add: profile_max_vol_def)
  have f: "add_order_flow_profile Figure
        (Some [\<lparr>buy_volume = 4, sell_volume = 2, price_bottom = 10, price_top = 11\<rparr>]) 0 20 5
      = Inr (Figure\<lparr>shapes := [Rect 75 375 10 11 ''rgba(0, 255, 187, 0.7)'',
                                 Rect 405 555 10 11 ''rgba(255, 17, 0, 0.7)'']\<rparr>)"
    by (simp add: add_order_flow_profile_def profile_max_vol_def py_div_def add_shape_def
        Figure_def Let_def)
  from a b c d e f show ?thesis by simp
qed

section \<open>The loop on the store\<close>

lemma cumsum_loop_snoc_step:
  "k < length vols \<Longrightarrow>
     cumsum_loop c acc (drop k vols) = cumsum_loop (c + vols ! k) (acc @ [c + vols ! k]) (drop (Suc k) vols)"
  by (simp add: Cons_nth_drop_Suc [symmetric])

lemma for_vol_run:
  assumes "lookup s volumes_ref = Some (NumList vols)"
    and "lookup s cumulative_ref = Some (NumList acc)"
    and "volumes_ref \<noteq> cumulative_ref"
    and "k \<le> length vols"
    and "length vols - k < fuel"
  shows "for_vol fuel volumes_ref cumulative_ref k c s
           = Some (Inr (c + sum_list (drop k vols),
                        s[cumulative_ref := NumList (cumsum_loop c acc (drop k vols))],
                        length vols - k))"
  using assms
proof (induction fuel arbitrary: k c s acc)
  case 0
  then show ?case by simp
next
  case (Suc fuel)
  show ?case
  proof (cases "k < length vols")
    case False
    with Suc.prems(4) have k: "k = length vols" by simp
    have "s ! cumulative_ref = NumList acc"
      using Suc.prems(2) by (simp add: lookup_def split: if_splits)
    then have "s[cumulative_ref := NumList acc] = s"
      by (metis list_update_id)
    with k Suc.prems(1) show ?thesis by simp
  next
    case True
    let ?c = "c + vols ! k"
    let ?s = "s[cumulative_ref := NumList (acc @ [?c])]"
    have app: "list_append cumulative_ref ?c s = Inr ?s"
      using Suc.prems(2) by (simp add: list_append_def)
    have cref: "cumulative_ref < length s"
      using Suc.prems(2) by (simp add: lookup_def split: if_splits)
    have l1: "lookup ?s volumes_ref = Some (NumList vols)"
      using Suc.prems(1,3) by (auto simp: lookup_def split: if_splits)
    have l2: "lookup ?s cumulative_ref = Some (NumList (acc @ [?c]))"
      using cref by (simp add: lookup_def)
    have "length vols - Suc k < fuel" using Suc.prems(5) True by simp
    from Suc.IH [OF l1 l2 Suc.prems(3) _ this, of ?c] True
    have ih: "for_vol fuel volumes_ref cumulative_ref (Suc k) ?c ?s
           = Some (Inr (?c + sum_list (drop (Suc k) vols),
                        ?s[cumulative_ref := NumList (cumsum_loop ?c (acc @ [?c]) (drop (Suc k) vols))],
                        length vols - Suc k))"
      by simp
    have sum: "c + sum_list (drop k vols) = ?c + sum_list (drop (Suc k) vols)"
      using True by (simp add: Cons_nth_drop_Suc [symmetric] add.assoc)
    have steps: "length vols - k = Suc (length vols - Suc k)"
      using True by simp
    show ?thesis
      using Suc.prems(1) True app ih
      by (simp add: Let_def cumsum_loop_snoc_step [OF True] sum steps del: cumsum_loop.simps)
  qed
qed

lemma for_vol_aliased:
  "lookup s a = Some (NumList vols) \<Longrightarrow> k < length vols \<Longrightarrow> for_vol fuel a a k c s = None"
proof (induction fuel arbitrary: s vols k c)
  case 0
  show ?case by simp
next
  case (Suc fuel)
  let ?c = "c + vols ! k"
  let ?s = "s[a := NumList (vols @ [?c])]"
  have a: "a < length s" using Suc.prems(1) by (simp add: lookup_def split: if_splits)
  have app: "list_append a ?c s = Inr ?s" using Suc.prems(1) by (simp add: list_append_def)
  have l: "lookup ?s a = Some (NumList (vols @ [?c]))" using a by (simp add: lookup_def)
  have "for_vol fuel a a (Suc k) ?c ?s = None"
    using Suc.IH [OF l] Suc.prems(2) by simp
  with Suc.prems app show ?case by (simp add: Let_def)
qed

lemma cumulative_volumes_run:
  assumes "lookup s levels_ref = Some (LevelList levels)" and "length levels < fuel"
  shows "cumulative_volumes fuel levels_ref s
           = Some (Inr (length s, Suc (Suc (length s)),
                        s @ [NumList (map fst levels), NumList (map snd levels),
                             NumList (cumsum_loop 0 [] (map snd levels))],
                        length levels))"
proof -
  let ?s3 = "s @ [NumList (map fst levels), NumList (map snd levels), NumList []]"
  have l1: "lookup ?s3 (Suc (length s)) = Some (NumList (map snd levels))"
    by (simp add: lookup_def nth_append)
  have l2: "lookup ?s3 (Suc (Suc (length s))) = Some (NumList [])"
    by (simp add: lookup_def nth_append)
  have "for_vol fuel (Suc (length s)) (Suc (Suc (length s))) 0 0 ?s3
          = Some (Inr (0 + sum_list (drop 0 (map snd levels)),
                       ?s3[Suc (Suc (length s)) := NumList (cumsum_loop 0 [] (drop 0 (map snd levels)))],
                       length (map snd levels) - 0))"
    using assms(2) by (intro for_vol_run [OF l1 l2]) simp_all
  moreover have "?s3[Suc (Suc (length s)) := NumList (cumsum_loop 0 [] (map snd levels))]
      = s @ [NumList (map fst levels), NumList (map snd levels),
             NumList (cumsum_loop 0 [] (map snd levels))]"
    by (simp add: list_update_append)
  ultimately show ?thesis
    using assms(1) by (simp add: cumulative_volumes_def new_list_def del: cumsum_loop.simps)
qed

lemma lookup_append_old: "a < length s \<Longrightarrow> lookup (s @ t) a = lookup s a"
  by (simp add: lookup_def nth_append)

lemma lookup_old_ref: "lookup s a = Some obj \<Longrightarrow> lookup (s @ t) a = Some obj"
  by (auto simp: lookup_def nth_append split: if_splits)

lemma depth_and_statistics_run:
  assumes b: "lookup s bids_ref = Some (LevelList bid_levels)"
    and a: "lookup s asks_ref = Some (LevelList ask_levels)"
    and fb: "length bid_levels < fuel" and fa: "length ask_levels < fuel"
  shows "depth_and_statistics fuel bids_ref asks_ref s
           = Some (Inr (\<lparr>bid_prices = length s, bid_cumulative = length s + 2,
                         ask_prices = length s + 3, ask_cumulative = length s + 5,
                         statistics = projr (computeStatistics bid_levels ask_levels),
                         loop_steps = length bid_levels + length ask_levels\<rparr>,
                        s @ side_objects bid_levels @ side_objects ask_levels))"
proof -
  let ?s1 = "s @ side_objects bid_levels"
  let ?s2 = "?s1 @ side_objects ask_levels"
  have r1: "cumulative_volumes fuel bids_ref s
      = Some (Inr (length s, Suc (Suc (length s)), ?s1, length bid_levels))"
    unfolding side_objects_def by (rule cumulative_volumes_run [OF b fb])
  have a1: "lookup ?s1 asks_ref = Some (LevelList ask_levels)"
    using a by (rule lookup_old_ref)
  have r2: "cumulative_volumes fuel asks_ref ?s1
      = Some (Inr (length ?s1, Suc (Suc (length ?s1)), ?s2, length ask_levels))"
    unfolding side_objects_def [of ask_levels] by (rule cumulative_volumes_run [OF a1 fa])
  have b2: "lookup ?s2 bids_ref = Some (LevelList bid_levels)"
    using b by (simp add: lookup_old_ref)
  have a2: "lookup ?s2 asks_ref = Some (LevelList ask_levels)"
    using a by (simp add: lookup_old_ref)
  have st: "statistics_of_store bids_ref asks_ref ?s2 = computeStatistics bid_levels ask_levels"
    using b2 a2 by (simp add: statistics_of_store_def)
  have len1: "length ?s1 = length s + 3" by (simp add: side_objects_def)
  obtain v where v: "computeStatistics bid_levels ask_levels = Inr v"
    by (simp add: computeStatistics_def Let_def)
  show ?thesis
    unfolding depth_and_statistics_def r1 using r2 st v len1 by simp
qed

lemma computeStatistics_returns: "\<exists>st. computeStatistics bs as = Inr st"
  by (simp add: computeStatistics_def Let_def)

lemma lookup_side_objects:
  "lookup (s @ side_objects levels @ t) (length s) = Some (NumList (map fst levels))"
  "lookup (s @ side_objects levels @ t) (length s + 2)
     = Some (NumList (cumsum_loop 0 [] (map snd levels)))"
  by (simp_all add: lookup_def side_objects_def nth_append del: cumsum_loop.simps)

lemma length_side_objects: "length (side_objects levels) = 3"
  by (simp add: side_objects_def)

lemma depth_and_statistics_result:
  assumes b: "lookup s bids_ref = Some (LevelList bid_levels)"
    and a: "lookup s asks_ref = Some (LevelList ask_levels)"
    and fb: "length bid_levels < fuel" and fa: "length ask_levels < fuel"
  shows "\<exists>r t. depth_and_statistics fuel bids_ref asks_ref s = Some (Inr (r, t))
           \<and> lookup t (bid_prices r) = Some (NumList (map fst bid_levels))
           \<and> lookup t (bid_cumulative r) = Some (NumList (cumsum_loop 0 [] (map snd bid_levels)))
           \<and> lookup t (ask_prices r) = Some (NumList (map fst ask_levels))
           \<and> lookup t (ask_cumulative r) = Some (NumList (cumsum_loop 0 [] (map snd ask_levels)))
           \<and> computeStatistics bid_levels ask_levels = Inr (statistics r)
           \<and> loop_steps r = length bid_levels + length ask_levels
           \<and> (\<forall>a<length s. lookup t a = lookup s a)"
proof -
  let ?t = "s @ side_objects bid_levels @ side_objects ask_levels"
  let ?r = "\<lparr>bid_prices = length s, bid_cumulative = length s + 2,
             ask_prices = length s + 3, ask_cumulative = length s + 5,
             statistics = projr (computeStatistics bid_levels ask_levels),
             loop_steps = length bid_levels + length ask_levels\<rparr>"
  have run: "depth_and_statistics fuel bids_ref asks_ref s = Some (Inr (?r, ?t))"
    by (rule depth_and_statistics_run [OF b a fb fa])
  have bp: "lookup ?t (length s) = Some (NumList (map fst bid_levels))"
    by (rule lookup_side_objects(1))
  have bc: "lookup ?t (length s + 2) = Some (NumList (cumsum_loop 0 [] (map snd bid_levels)))"
    by (rule lookup_side_objects(2))
  have ap: "lookup ?t (length s + 3) = Some (NumList (map fst ask_levels))"
    using lookup_side_objects(1) [of "s @ side_objects bid_levels" ask_levels "[]"]
    by (simp add: length_side_objects)
  have ac: "lookup ?t (length s + 5) = Some (NumList (cumsum_loop 0 [] (map snd ask_levels)))"
    using lookup_side_objects(2) [of "s @ side_objects bid_levels" ask_levels "[]"]
    by (simp add: length_side_objects ac_simps del: cumsum_loop.simps)
  have st: "computeStatistics bid_levels ask_levels
              = Inr (projr (computeStatistics bid_levels ask_levels))"
    using computeStatistics_returns [of bid_levels ask_levels] by auto
  have old: "\<forall>a<length s. lookup ?t a = lookup s a"
    by (simp add: lookup_append_old)
  show ?thesis
    unfolding run using bp bc ap ac st old by simp
qed

text \<open>
  Claim C6. The depth curves and the statistics are a function of the snapshot alone and
  the computation leaves the snapshot as it was: two runs on stores that hold the same
  bid and ask levels (at whatever references, with whatever else in the store, the
  second run possibly on the store the first has left) return cumulative curves with the
  same contents and the same statistics, namely those of \<open>computeDepthCurve\<close> and
  \<open>computeStatistics\<close>; and after a run every object that was in the store before it,
  the two lists of the snapshot among them, is unchanged.
\<close>

theorem depth_and_statistics_deterministic:
  assumes "lookup s bids_ref = Some (LevelList bid_levels)"
    and "lookup s asks_ref = Some (LevelList ask_levels)"
    and "lookup s' bids_ref' = Some (LevelList bid_levels)"
    and "lookup s' asks_ref' = Some (LevelList ask_levels)"
    and "length bid_levels < fuel" and "length ask_levels < fuel"
    and "length bid_levels < fuel'" and "length ask_levels < fuel'"
  shows "\<exists>r t r' t'.
           depth_and_statistics fuel bids_ref asks_ref s = Some (Inr (r, t))
         \<and> depth_and_statistics fuel' bids_ref' asks_ref' s' = Some (Inr (r', t'))
         \<and> lookup t (bid_prices r) = lookup t' (bid_prices r')
         \<and> lookup t (bid_cumulative r) = lookup t' (bid_cumulative r')
         \<and> lookup t (ask_prices r) = lookup t' (ask_prices r')
         \<and> lookup t (ask_cumulative r) = lookup t' (ask_cumulative r')
         \<and> statistics r = statistics r'
         \<and> (\<exists>bid_curve ask_curve.
               computeDepthCurve bid_levels = Inr bid_curve
             \<and> computeDepthCurve ask_levels = Inr ask_curve
             \<and> lookup t (bid_prices r) = Some (NumList (prices bid_curve))
             \<and> lookup t (bid_cumulative r) = Some (NumList (cumulative bid_curve))
             \<and> lookup t (ask_prices r) = Some (NumList (prices ask_curve))
             \<and> lookup t (ask_cumulative r) = Some (NumList (cumulative ask_curve))
             \<and> computeStatistics bid_levels ask_levels = Inr (statistics r))
         \<and> (\<forall>a<length s. lookup t a = lookup s a)
         \<and> (\<forall>a<length s'. lookup t' a = lookup s' a)
         \<and> lookup t bids_ref = Some (LevelList bid_levels)
         \<and> lookup t asks_ref = Some (LevelList ask_levels)
         \<and> lookup t' bids_ref' = Some (LevelList bid_levels)
         \<and> lookup t' asks_ref' = Some (LevelList ask_levels)"
proof -
  from depth_and_statistics_result [OF assms(1,2,5,6)] obtain r t where
    run: "depth_and_statistics fuel bids_ref asks_ref s = Some (Inr (r, t))"
    and bp: "lookup t (bid_prices r) = Some (NumList (map fst bid_levels))"
    and bc: "lookup t (bid_cumulative r) = Some (NumList (cumsum_loop 0 [] (map snd bid_levels)))"
    and ap: "lookup t (ask_prices r) = Some (NumList (map fst ask_levels))"
    and ac: "lookup t (ask_cumulative r) = Some (NumList (cumsum_loop 0 [] (map snd ask_levels)))"
    and st: "computeStatistics bid_levels ask_levels = Inr (statistics r)"
    and old: "\<forall>a<length s. lookup t a = lookup s a"
    by blast
  from depth_and_statistics_result [OF assms(3,4,7,8)] obtain r' t' where
    run': "depth_and_statistics fuel' bids_ref' asks_ref' s' = Some (Inr (r', t'))"
    and bp': "lookup t' (bid_prices r') = Some (NumList (map fst bid_levels))"
    and bc': "lookup t' (bid_cumulative r') = Some (NumList (cumsum_loop 0 [] (map snd bid_levels)))"
    and ap': "lookup t' (ask_prices r') = Some (NumList (map fst ask_levels))"
    and ac': "lookup t' (ask_cumulative r') = Some (NumList (cumsum_loop 0 [] (map snd ask_levels)))"
    and st': "computeStatistics bid_levels ask_levels = Inr (statistics r')"
    and old': "\<forall>a<length s'. lookup t' a = lookup s' a"
    by blast
  have in_s: "bids_ref < length s" "asks_ref < length s"
    using assms(1,2) by (simp_all add: lookup_def split: if_splits)
  have in_s': "bids_ref' < length s'" "asks_ref' < length s'"
    using assms(3,4) by (simp_all add: lookup_def split: if_splits)
  have kept: "lookup t bids_ref = Some (LevelList bid_levels)"
    "lookup t asks_ref = Some (LevelList ask_levels)"
    using old in_s assms(1,2) by simp_all
  have kept': "lookup t' bids_ref' = Some (LevelList bid_levels)"
    "lookup t' asks_ref' = Some (LevelList ask_levels)"
    using old' in_s' assms(3,4) by simp_all
  have same_stats: "statistics r = statistics r'"
    using st st' by simp
  have pure: "\<exists>bid_curve ask_curve.
               computeDepthCurve bid_levels = Inr bid_curve
             \<and> computeDepthCurve ask_levels = Inr ask_curve
             \<and> lookup t (bid_prices r) = Some (NumList (prices bid_curve))
             \<and> lookup t (bid_cumulative r) = Some (NumList (cumulative bid_curve))
             \<and> lookup t (ask_prices r) = Some (NumList (prices ask_curve))
             \<and> lookup t (ask_cumulative r) = Some (NumList (cumulative ask_curve))
             \<and> computeStatistics bid_levels ask_levels = Inr (statistics r)"
    unfolding computeDepthCurve_run using bp bc ap ac st by simp
  have same: "lookup t (bid_prices r) = lookup t' (bid_prices r')"
    "lookup t (bid_cumulative r) = lookup t' (bid_cumulative r')"
    "lookup t (ask_prices r) = lookup t' (ask_prices r')"
    "lookup t (ask_cumulative r) = lookup t' (ask_cumulative r')"
    using bp bc ap ac bp' bc' ap' ac' by simp_all
  from run run' same same_stats pure old old' kept kept' show ?thesis
    by blast
qed

text \<open>
  Claim C7. The computation terminates on every snapshot: with the bid and ask lists in
  the store, every run whose fuel exceeds the length of each side returns, and the two
  loops together have made exactly as many iterations as the book has levels.
\<close>

theorem depth_and_statistics_terminates:
  assumes "lookup s bids_ref = Some (LevelList bid_levels)"
    and "lookup s asks_ref = Some (LevelList ask_levels)"
  shows "\<forall>fuel. length bid_levels < fuel \<and> length ask_levels < fuel \<longrightarrow>
           (\<exists>r t. depth_and_statistics fuel bids_ref asks_ref s = Some (Inr (r, t))
                \<and> loop_steps r = length bid_levels + length ask_levels)"
proof (intro allI impI)
  fix fuel
  assume f: "length bid_levels < fuel \<and> length ask_levels < fuel"
  then have fb: "length bid_levels < fuel" and fa: "length ask_levels < fuel"
    by simp_all
  from depth_and_statistics_run [OF assms fb fa]
  show "\<exists>r t. depth_and_statistics fuel bids_ref asks_ref s = Some (Inr (r, t))
              \<and> loop_steps r = length bid_levels + length ask_levels"
    by simp
qed

theorem depth_and_statistics_terminates_witness:
  "lookup [LevelList [(100, 2), (99, 3)], LevelList [(101, 1), (102, 4)]] 0
     = Some (LevelList [(100, 2), (99, 3)])
   \<and> lookup [LevelList [(100, 2), (99, 3)], LevelList [(101, 1), (102, 4)]] 1
     = Some (LevelList [(101, 1), (102, 4)])
   \<and> length ([(100, 2), (99, 3)] :: level list) < 3
   \<and> length ([(101, 1), (102, 4)] :: level list) < 3
   \<and> (\<exists>r t. depth_and_statistics 3 0 1
               [LevelList [(100, 2), (99, 3)], LevelList [(101, 1), (102, 4)]]
             = Some (Inr (r, t))
          \<and> loop_steps r = 4)"
proof -
  have b: "lookup [LevelList [(100, 2), (99, 3)], LevelList [(101, 1), (102, 4)]] 0
     = Some (LevelList [(100, 2), (99, 3)])"
    by (simp add: lookup_def)
  have a: "lookup [LevelList [(100, 2), (99, 3)], LevelList [(101, 1), (102, 4)]] 1
     = Some (LevelList [(101, 1), (102, 4)])"
    by (simp add: lookup_def)
  have f: "length ([(100, 2), (99, 3)] :: level list) < 3
           \<and> length ([(101, 1), (102, 4)] :: level list) < 3"
    by simp
  from depth_and_statistics_terminates [OF b a, THEN spec, of 3] f
  obtain r t where
    run: "depth_and_statistics 3 0 1
            [LevelList [(100, 2), (99, 3)], LevelList [(101, 1), (102, 4)]]
          = Some (Inr (r, t))"
    and steps: "loop_steps r = length ([(100, 2), (99, 3)] :: level list)
                  + length ([(101, 1), (102, 4)] :: level list)"
    by blast
  from steps have "loop_steps r = 4" by simp
  with run have "\<exists>r t. depth_and_statistics 3 0 1
               [LevelList [(100, 2), (99, 3)], LevelList [(101, 1), (102, 4)]]
             = Some (Inr (r, t))
          \<and> loop_steps r = 4"
    by blast
  with a b f show ?thesis by blast
qed

theorem depth_and_statistics_deterministic_witness:
  "\<exists>r t r' t'.
      depth_and_statistics 3 0 1 [LevelList [(100, 2), (99, 3)], LevelList [(101, 1), (102, 4)]]
        = Some (Inr (r, t))
    \<and> depth_and_statistics 5 2 0
        [LevelList [(101, 1), (102, 4)], NumList [7], LevelList [(100, 2), (99, 3)]]
        = Some (Inr (r', t'))
    \<and> lookup t (bid_cumulative r) = Some (NumList [2, 5])
    \<and> lookup t' (bid_cumulative r') = Some (NumList [2, 5])
    \<and> lookup t (ask_cumulative r) = Some (NumList [1, 5])
    \<and> lookup t' (ask_cumulative r') = Some (NumList [1, 5])
    \<and> statistics r = \<lparr>bidVolume = 5, askVolume = 5, volumeRatio = 1, spread = 1\<rparr>
    \<and> statistics r' = \<lparr>bidVolume = 5, askVolume = 5, volumeRatio = 1, spread = 1\<rparr>
    \<and> lookup t 0 = Some (LevelList [(100, 2), (99, 3)])
    \<and> lookup t 1 = Some (LevelList [(101, 1), (102, 4)])
    \<and> lookup t' 1 = Some (NumList [7])"
proof -
  let ?s = "[LevelList [(100, 2), (99, 3)], LevelList [(101, 1), (102, 4)]]"
  let ?s' = "[LevelList [(101, 1), (102, 4)], NumList [7], LevelList [(100, 2), (99, 3)]]"
  have b: "lookup ?s 0 = Some (LevelList [(100, 2), (99, 3)])"
    and a: "lookup ?s 1 = Some (LevelList [(101, 1), (102, 4)])"
    and b': "lookup ?s' 2 = Some (LevelList [(100, 2), (99, 3)])"
    and a': "lookup ?s' 0 = Some (LevelList [(101, 1), (102, 4)])"
    by (simp_all add: lookup_def)
  have f: "length ([(100, 2), (99, 3)] :: level list) < 3"
    "length ([(101, 1), (102, 4)] :: level list) < 3"
    "length ([(100, 2), (99, 3)] :: level list) < 5"
    "length ([(101, 1), (102, 4)] :: level list) < 5"
    by simp_all
  from depth_and_statistics_deterministic [OF b a b' a' f]
  obtain r t r' t' where
    run: "depth_and_statistics 3 0 1 ?s = Some (Inr (r, t))"
    and run': "depth_and_statistics 5 2 0 ?s' = Some (Inr (r', t'))"
    and same: "lookup t (bid_cumulative r) = lookup t' (bid_cumulative r')"
      "lookup t (ask_cumulative r) = lookup t' (ask_cumulative r')"
      "statistics r = statistics r'"
    and pure: "\<exists>bid_curve ask_curve.
               computeDepthCurve [(100, 2), (99, 3)] = Inr bid_curve
             \<and> computeDepthCurve [(101, 1), (102, 4)] = Inr ask_curve
             \<and> lookup t (bid_prices r) = Some (NumList (prices bid_curve))
             \<and> lookup t (bid_cumulative r) = Some (NumList (cumulative bid_curve))
             \<and> lookup t (ask_prices r) = Some (NumList (prices ask_curve))
             \<and> lookup t (ask_cumulative r) = Some (NumList (cumulative ask_curve))
             \<and> computeStatistics [(100, 2), (99, 3)] [(101, 1), (102, 4)] = Inr (statistics r)"
    and old: "\<forall>a<length ?s. lookup t a = lookup ?s a"
    and old': "\<forall>a<length ?s'. lookup t' a = lookup ?s' a"
    by blast
  from pure have bc: "lookup t (bid_cumulative r) = Some (NumList [2, 5])"
    and ac: "lookup t (ask_cumulative r) = Some (NumList [1, 5])"
    and st: "statistics r = \<lparr>bidVolume = 5, askVolume = 5, volumeRatio = 1, spread = 1\<rparr>"
    by (auto simp: computeDepthCurve_def computeStatistics_def py_sum_def Let_def)
  from old have "lookup t 0 = lookup ?s 0" and "lookup t 1 = lookup ?s 1"
    by simp_all
  with b a have o: "lookup t 0 = Some (LevelList [(100, 2), (99, 3)])"
    "lookup t 1 = Some (LevelList [(101, 1), (102, 4)])"
    by simp_all
  from old' have "lookup t' 1 = lookup ?s' 1"
    by simp
  then have o': "lookup t' 1 = Some (NumList [7])"
    by (simp add: lookup_def)
  from run run' same bc ac st o o' show ?thesis
    by (intro exI [of _ r] exI [of _ t] exI [of _ r'] exI [of _ t']) simp
qed

lemma depth_and_statistics_example:
  "depth_and_statistics 3 0 1 [LevelList [(100, 2), (99, 3)], LevelList [(101, 1), (102, 4)]]
     = Some (Inr (\<lparr>bid_prices = 2, bid_cumulative = 4, ask_prices = 5, ask_cumulative = 7,
                   statistics = \<lparr>bidVolume = 5, askVolume = 5, volumeRatio = 1, spread = 1\<rparr>,
                   loop_steps = 4\<rparr>,
                  [LevelList [(100, 2), (99, 3)], LevelList [(101, 1), (102, 4)],
                   NumList [100, 99], NumList [2, 3], NumList [2, 5],
                   NumList [101, 102], NumList [1, 4], NumList [1, 5]]))"
  by code_simp

lemma depth_and_statistics_short_of_fuel:
  "depth_and_statistics 2 0 1 [LevelList [(100, 2), (99, 3)], LevelList [(101, 1), (102, 4)]]
     = None"
  by code_simp

section \<open>Python's numbers on examples\<close>

text \<open>
  The floats nearest to 0.1, 0.2 and 0.3 are 3602879701896397 / 2^55,
  3602879701896397 / 2^54 and 5404319552844595 / 2^54. Added from the left they give
  0.6000000000000001, added from the right 0.6.
\<close>

lemma round_double_tenth:
  "round_double (1 / 10) = Finite (3602879701896397 / 2 ^ 55)"
  "round_double (2 / 10) = Finite (3602879701896397 / 2 ^ 54)"
  "round_double (3 / 10) = Finite (5404319552844595 / 2 ^ 54)"
  by code_simp+

lemma float_add_not_associative:
  "float_add (float_add (Finite (3602879701896397 / 2 ^ 55)) (Finite (3602879701896397 / 2 ^ 54)))
      (Finite (5404319552844595 / 2 ^ 54))
     = Finite (5404319552844596 / 2 ^ 53)"
  "float_add (float_add (Finite (5404319552844595 / 2 ^ 54)) (Finite (3602879701896397 / 2 ^ 54)))
      (Finite (3602879701896397 / 2 ^ 55))
     = Finite (5404319552844595 / 2 ^ 53)"
  by code_simp+

lemma float_add_absorbs:
  "float_add (Finite (10 ^ 16)) (Finite 1) = Finite (10 ^ 16)"
  "float_add (Finite (10 ^ 16)) (Finite (- 1)) = Finite (10 ^ 16)"
  "float_add (Finite 2) (Finite (10 ^ 16)) = Finite (10 ^ 16 + 2)"
  by code_simp+

lemma int_to_float_rounds:
  "int_to_float 9007199254740993 = Inr (Finite 9007199254740992)"
  by code_simp

section \<open>The loop on integer quantities\<close>

lemma py_add_error: "py_add x y = Inl e \<Longrightarrow> e = OverflowError"
  by (cases x; cases y) (auto simp: int_to_float_def split: pyfloat.splits sum.splits)

lemma cumsum_loop_num_error:
  "cumsum_loop_num c acc vols = Inl e \<Longrightarrow> e = OverflowError"
proof (induction vols arbitrary: c acc)
  case Nil
  then show ?case by simp
next
  case (Cons v vs)
  show ?case
  proof (cases "py_add c v")
    case (Inl e')
    with Cons.prems have "e = e'" by simp
    with Inl show ?thesis by (simp add: py_add_error)
  next
    case (Inr c')
    with Cons.prems have "cumsum_loop_num c' (acc @ [c']) vs = Inl e" by simp
    then show ?thesis by (rule Cons.IH)
  qed
qed

lemma cumsum_loop_num_length:
  "cumsum_loop_num c acc vols = Inr r \<Longrightarrow> length r = length acc + length vols"
proof (induction vols arbitrary: c acc)
  case Nil
  then show ?case by simp
next
  case (Cons v vs)
  show ?case
  proof (cases "py_add c v")
    case (Inl e')
    with Cons.prems show ?thesis by simp
  next
    case (Inr c')
    with Cons.prems have "cumsum_loop_num c' (acc @ [c']) vs = Inr r" by simp
    from Cons.IH [OF this] show ?thesis by simp
  qed
qed

lemma cumsum_loop_num_int:
  "cumsum_loop_num (PInt c) acc (map PInt ns) = Inr (acc @ map PInt (running_sums c ns))"
  by (induction ns arbitrary: c acc) simp_all

lemma running_sums_length: "length (running_sums c ns) = length ns"
  by (induction ns arbitrary: c) simp_all

lemma running_sums_nth:
  "i < length ns \<Longrightarrow> running_sums c ns ! i = c + sum_list (take (Suc i) ns)"
proof (induction ns arbitrary: c i)
  case Nil
  then show ?case by simp
next
  case (Cons n ns)
  show ?case
  proof (cases i)
    case 0
    then show ?thesis by simp
  next
    case (Suc k)
    with Cons.prems have "k < length ns" by simp
    from Cons.IH [OF this, of "c + n"] Suc show ?thesis by (simp add: add.assoc)
  qed
qed

lemma sum_list_take_Suc_int:
  "i < length (xs :: int list) \<Longrightarrow> sum_list (take (Suc i) xs) = (\<Sum>j\<le>i. xs ! j)"
proof (induction i)
  case 0
  then show ?case by (cases xs) simp_all
next
  case (Suc i)
  then have "take (Suc (Suc i)) xs = take (Suc i) xs @ [xs ! Suc i]"
    by (simp add: take_Suc_conv_app_nth)
  with Suc show ?case by simp
qed

lemma running_sums_nth_sum:
  assumes "i < length levels"
  shows "running_sums 0 (map snd levels) ! i = (\<Sum>j\<le>i. snd (levels ! j))"
proof -
  have "running_sums 0 (map snd levels) ! i = sum_list (take (Suc i) (map snd levels))"
    using assms by (simp add: running_sums_nth)
  also have "\<dots> = (\<Sum>j\<le>i. map snd levels ! j)"
    using assms by (intro sum_list_take_Suc_int) simp
  also have "\<dots> = (\<Sum>j\<le>i. snd (levels ! j))"
    using assms by (intro sum.cong) simp_all
  finally show ?thesis .
qed


lemma running_sums_last:
  assumes "ns \<noteq> []"
  shows "last (running_sums c ns) = c + sum_list ns"
proof -
  have "running_sums c ns \<noteq> []"
    using assms running_sums_length [of c ns] by (metis length_0_conv)
  then have "last (running_sums c ns) = running_sums c ns ! (length ns - 1)"
    by (simp add: last_conv_nth running_sums_length)
  also have "\<dots> = c + sum_list (take (Suc (length ns - 1)) ns)"
    using assms by (intro running_sums_nth) simp
  finally show ?thesis using assms by simp
qed

lemma map_snd_int_levels: "map snd (int_levels levels) = map PInt (map snd levels)"
  by (simp add: int_levels_def case_prod_unfold)

lemma map_fst_int_levels: "map fst (int_levels levels) = map fst levels"
  by (simp add: int_levels_def case_prod_unfold)

lemma computeDepthCurve_num_int:
  "computeDepthCurve_num (int_levels levels)
     = Inr \<lparr>num_prices = map fst levels,
            num_cumulative = map PInt (running_sums 0 (map snd levels))\<rparr>"
  using cumsum_loop_num_int [of 0 "[]" "map snd levels"]
  by (simp add: computeDepthCurve_num_def map_snd_int_levels map_fst_int_levels
      del: cumsum_loop_num.simps)

lemma computeDepthCurve_num_shape:
  assumes "computeDepthCurve_num levels = Inr c"
  shows "num_prices c = map fst levels \<and> length (num_cumulative c) = length levels"
proof (cases "cumsum_loop_num (PInt 0) [] (map snd levels)")
  case (Inl e)
  with assms show ?thesis by (simp add: computeDepthCurve_num_def)
next
  case (Inr r)
  from cumsum_loop_num_length [OF Inr] have "length r = length levels" by simp
  with assms Inr show ?thesis by (auto simp: computeDepthCurve_num_def)
qed

lemma computeDepthCurve_num_error:
  assumes "computeDepthCurve_num levels = Inl e"
  shows "e = OverflowError"
proof (cases "cumsum_loop_num (PInt 0) [] (map snd levels)")
  case (Inl e')
  with assms have "e = e'" by (simp add: computeDepthCurve_num_def)
  with Inl show ?thesis by (simp add: cumsum_loop_num_error)
next
  case (Inr r)
  with assms show ?thesis by (simp add: computeDepthCurve_num_def)
qed







text \<open>
  Claim C2 says that a negative quantity makes the depth curve fail with
  \<open>InvalidInput\<close>. The code has no check of the quantities: on the bids
  \<^verbatim>\<open>[[100, 2], [99, -3]]\<close> it returns the curve with cumulative quantities 2 and -1.
\<close>

theorem computeDepthCurve_num_negative_counterexample:
  "(- 3 :: int) < 0
   \<and> computeDepthCurve_num (int_levels [(PInt 100, 2), (PInt 99, - 3)])
      = Inr \<lparr>num_prices = [PInt 100, PInt 99], num_cumulative = [PInt 2, PInt (- 1)]\<rparr>
   \<and> computeDepthCurve_num (int_levels [(PInt 100, 2), (PInt 99, - 3)]) \<noteq> Inl InvalidInput"
  by (simp add: computeDepthCurve_num_def int_levels_def)

text \<open>
  Claim C2, amended. For every sequence of levels, with negative quantities or without,
  the depth curve never fails with \<open>InvalidInput\<close>; whenever it is returned, its price
  and cumulative lists are as long as the input; and for integer quantities it is
  returned with the sum of the quantities at indices \<open>0..i\<close> as the cumulative quantity
  at index \<open>i\<close>, whatever their signs.
\<close>

theorem computeDepthCurve_num_never_invalid_input:
  "computeDepthCurve_num levels \<noteq> Inl InvalidInput
   \<and> (\<forall>c. computeDepthCurve_num levels = Inr c
          \<longrightarrow> num_prices c = map fst levels \<and> length (num_cumulative c) = length levels)
   \<and> (\<forall>ilevels. levels = int_levels ilevels
          \<longrightarrow> (\<exists>cs. computeDepthCurve_num levels
                       = Inr \<lparr>num_prices = map fst ilevels, num_cumulative = map PInt cs\<rparr>
                  \<and> length cs = length ilevels
                  \<and> (\<forall>i<length ilevels. cs ! i = (\<Sum>j\<le>i. snd (ilevels ! j)))))"
proof -
  have a: "computeDepthCurve_num levels \<noteq> Inl InvalidInput"
    using computeDepthCurve_num_error [of levels InvalidInput] by auto
  have b: "\<forall>c. computeDepthCurve_num levels = Inr c
          \<longrightarrow> num_prices c = map fst levels \<and> length (num_cumulative c) = length levels"
    using computeDepthCurve_num_shape by blast
  have c: "\<forall>ilevels. levels = int_levels ilevels
          \<longrightarrow> (\<exists>cs. computeDepthCurve_num levels
                       = Inr \<lparr>num_prices = map fst ilevels, num_cumulative = map PInt cs\<rparr>
                  \<and> length cs = length ilevels
                  \<and> (\<forall>i<length ilevels. cs ! i = (\<Sum>j\<le>i. snd (ilevels ! j))))"
  proof (intro allI impI)
    fix ilevels :: "(pynum \<times> int) list"
    assume l: "levels = int_levels ilevels"
    let ?cs = "running_sums 0 (map snd ilevels)"
    have "length ?cs = length ilevels"
      by (simp add: running_sums_length)
    moreover have "\<forall>i<length ilevels. ?cs ! i = (\<Sum>j\<le>i. snd (ilevels ! j))"
      by (simp add: running_sums_nth_sum)
    ultimately show "\<exists>cs. computeDepthCurve_num levels
                       = Inr \<lparr>num_prices = map fst ilevels, num_cumulative = map PInt cs\<rparr>
                  \<and> length cs = length ilevels
                  \<and> (\<forall>i<length ilevels. cs ! i = (\<Sum>j\<le>i. snd (ilevels ! j)))"
      unfolding l computeDepthCurve_num_int by blast
  qed
  from a b c show ?thesis by blast
qed

theorem computeDepthCurve_num_never_invalid_input_witness:
  "computeDepthCurve_num (int_levels [(PInt 100, 2), (PInt 99, - 3)]) \<noteq> Inl InvalidInput
   \<and> computeDepthCurve_num (int_levels [(PInt 100, 2), (PInt 99, - 3)])
      = Inr \<lparr>num_prices = [PInt 100, PInt 99], num_cumulative = [PInt 2, PInt (- 1)]\<rparr>
   \<and> length (num_cumulative \<lparr>num_prices = [PInt 100, PInt 99],
                                num_cumulative = [PInt 2, PInt (- 1)]\<rparr>) = 2
   \<and> (\<exists>cs. computeDepthCurve_num (int_levels [(PInt 100, 2), (PInt 99, - 3)])
               = Inr \<lparr>num_prices = [PInt 100, PInt 99], num_cumulative = map PInt cs\<rparr>
          \<and> cs ! 1 = (\<Sum>j\<le>1. snd (([(PInt 100, 2), (PInt 99, - 3)] :: (pynum \<times> int) list) ! j))
          \<and> cs ! 1 = - 1)"
proof -
  let ?l = "[(PInt 100, 2), (PInt 99, - 3)] :: (pynum \<times> int) list"
  note inst = computeDepthCurve_num_never_invalid_input [of "int_levels ?l"]
  have run: "computeDepthCurve_num (int_levels ?l)
      = Inr \<lparr>num_prices = [PInt 100, PInt 99], num_cumulative = [PInt 2, PInt (- 1)]\<rparr>"
    by (simp add: computeDepthCurve_num_def int_levels_def)
  from inst have a: "computeDepthCurve_num (int_levels ?l) \<noteq> Inl InvalidInput"
    by blast
  from inst run have b: "length (num_cumulative \<lparr>num_prices = [PInt 100, PInt 99],
                                num_cumulative = [PInt 2, PInt (- 1)]\<rparr>) = 2"
    by simp
  from inst obtain cs where
    c: "computeDepthCurve_num (int_levels ?l)
          = Inr \<lparr>num_prices = map fst ?l, num_cumulative = map PInt cs\<rparr>"
    and nth: "\<forall>i<length ?l. cs ! i = (\<Sum>j\<le>i. snd (?l ! j))"
    by blast
  from c have c': "computeDepthCurve_num (int_levels ?l)
          = Inr \<lparr>num_prices = [PInt 100, PInt 99], num_cumulative = map PInt cs\<rparr>"
    by simp
  from nth have n1: "cs ! 1 = (\<Sum>j\<le>1. snd (?l ! j))"
    by simp
  then have n2: "cs ! 1 = - 1"
    by simp
  from a run b c' n1 n2 show ?thesis by blast
qed

section \<open>The volumes on integer quantities\<close>

lemma py_sum_from_int:
  "py_sum_from (PInt c) (map PInt ns) = Inr (PInt (c + sum_list ns))"
  by (induction ns arbitrary: c) (simp_all add: add.assoc)

lemma py_sum_num_int_levels:
  "py_sum_num (map snd (int_levels levels)) = Inr (PInt (sum_list (map snd levels)))"
  using py_sum_from_int [of 0 "map snd levels"]
  by (simp add: py_sum_num_def map_snd_int_levels)

lemma sum_list_snd_perm_int:
  assumes "mset levels' = mset (levels :: (pynum \<times> int) list)"
  shows "sum_list (map snd levels') = sum_list (map snd levels)"
proof -
  from assms have "mset (map snd levels') = mset (map snd levels)" by (metis mset_map)
  then show ?thesis by (metis sum_mset_sum_list)
qed

lemma computeVolumes_num_int:
  "computeVolumes_num (int_levels bid_levels) (int_levels ask_levels)
     = (case (if 0 < sum_list (map snd ask_levels)
              then py_truediv (PInt (sum_list (map snd bid_levels)))
                     (PInt (sum_list (map snd ask_levels)))
              else Inr (PInt 0)) of
          Inl e \<Rightarrow> Inl e
        | Inr imbalance \<Rightarrow>
            Inr \<lparr>num_bidVolume = PInt (sum_list (map snd bid_levels)),
                 num_askVolume = PInt (sum_list (map snd ask_levels)),
                 num_volumeRatio = imbalance\<rparr>)"
  by (simp add: computeVolumes_num_def py_sum_num_int_levels del: py_truediv.simps)

lemma depth_total_perm_int:
  assumes "mset levels' = mset (levels :: (pynum \<times> int) list)"
  shows "last (map PInt (running_sums 0 (map snd levels')))
           = last (map PInt (running_sums 0 (map snd levels)))"
proof (cases "levels = []")
  case True
  with assms show ?thesis by simp
next
  case False
  with assms have ne: "levels' \<noteq> []" by auto
  have "last (running_sums 0 (map snd levels')) = last (running_sums 0 (map snd levels))"
    using False ne sum_list_snd_perm_int [OF assms] by (simp add: running_sums_last)
  moreover have "running_sums 0 (map snd levels') \<noteq> []" "running_sums 0 (map snd levels) \<noteq> []"
    using False ne running_sums_length [of 0 "map snd levels'"]
      running_sums_length [of 0 "map snd levels"] by auto
  ultimately show ?thesis by (simp add: last_map)
qed

text \<open>
  Claim C5 says that the final cumulative total of the depth curve is the same for every
  order of the levels. On floats the additions round, and differently in different
  orders: the quantities 1e16, 1.0, 1.0 end at 1e16, and the same levels in the order
  1.0, 1.0, 1e16 end at 10000000000000002.
\<close>

theorem depth_total_order_counterexample:
  "mset [(PFloat (Finite 98), PFloat (Finite 1)), (PFloat (Finite 99), PFloat (Finite 1)),
         (PFloat (Finite 100), PFloat (Finite (10 ^ 16)))]
     = mset [(PFloat (Finite 100), PFloat (Finite (10 ^ 16))),
             (PFloat (Finite 99), PFloat (Finite 1)), (PFloat (Finite 98), PFloat (Finite 1))]
   \<and> computeDepthCurve_num
        [(PFloat (Finite 100), PFloat (Finite (10 ^ 16))),
         (PFloat (Finite 99), PFloat (Finite 1)), (PFloat (Finite 98), PFloat (Finite 1))]
      = Inr \<lparr>num_prices = [PFloat (Finite 100), PFloat (Finite 99), PFloat (Finite 98)],
              num_cumulative = [PFloat (Finite (10 ^ 16)), PFloat (Finite (10 ^ 16)),
                                PFloat (Finite (10 ^ 16))]\<rparr>
   \<and> computeDepthCurve_num
        [(PFloat (Finite 98), PFloat (Finite 1)), (PFloat (Finite 99), PFloat (Finite 1)),
         (PFloat (Finite 100), PFloat (Finite (10 ^ 16)))]
      = Inr \<lparr>num_prices = [PFloat (Finite 98), PFloat (Finite 99), PFloat (Finite 100)],
              num_cumulative = [PFloat (Finite 1), PFloat (Finite 2),
                                PFloat (Finite (10 ^ 16 + 2))]\<rparr>
   \<and> PFloat (Finite (10 ^ 16 + 2)) \<noteq> PFloat (Finite (10 ^ 16))"
proof -
  have a: "mset [(PFloat (Finite 98), PFloat (Finite 1)), (PFloat (Finite 99), PFloat (Finite 1)),
         (PFloat (Finite 100), PFloat (Finite (10 ^ 16)))]
     = mset [(PFloat (Finite 100), PFloat (Finite (10 ^ 16))),
             (PFloat (Finite 99), PFloat (Finite 1)), (PFloat (Finite 98), PFloat (Finite 1))]"
    by (simp add: ac_simps)
  have b: "computeDepthCurve_num
        [(PFloat (Finite 100), PFloat (Finite (10 ^ 16))),
         (PFloat (Finite 99), PFloat (Finite 1)), (PFloat (Finite 98), PFloat (Finite 1))]
      = Inr \<lparr>num_prices = [PFloat (Finite 100), PFloat (Finite 99), PFloat (Finite 98)],
              num_cumulative = [PFloat (Finite (10 ^ 16)), PFloat (Finite (10 ^ 16)),
                                PFloat (Finite (10 ^ 16))]\<rparr>"
    by code_simp
  have c: "computeDepthCurve_num
        [(PFloat (Finite 98), PFloat (Finite 1)), (PFloat (Finite 99), PFloat (Finite 1)),
         (PFloat (Finite 100), PFloat (Finite (10 ^ 16)))]
      = Inr \<lparr>num_prices = [PFloat (Finite 98), PFloat (Finite 99), PFloat (Finite 100)],
              num_cumulative = [PFloat (Finite 1), PFloat (Finite 2),
                                PFloat (Finite (10 ^ 16 + 2))]\<rparr>"
    by code_simp
  have d: "PFloat (Finite (10 ^ 16 + 2)) \<noteq> PFloat (Finite (10 ^ 16))"
    by simp
  from a b c d show ?thesis by blast
qed

text \<open>
  Claim C5, amended. For integer quantities, permuting the levels of either side changes
  neither the total bid volume, nor the total ask volume, nor the volume ratio (the
  result of the volume computation is the same), nor the last cumulative quantity of
  either depth curve; the depth curve itself can change with the order.
\<close>

theorem volumes_num_order_independent:
  assumes "mset bid_levels' = mset bid_levels" and "mset ask_levels' = mset ask_levels"
  shows "computeVolumes_num (int_levels bid_levels') (int_levels ask_levels')
           = computeVolumes_num (int_levels bid_levels) (int_levels ask_levels)
         \<and> (\<forall>v. computeVolumes_num (int_levels bid_levels) (int_levels ask_levels) = Inr v
               \<longrightarrow> num_bidVolume v = PInt (sum_list (map snd bid_levels))
                 \<and> num_askVolume v = PInt (sum_list (map snd ask_levels)))
         \<and> (\<exists>c c'. computeDepthCurve_num (int_levels bid_levels) = Inr c
               \<and> computeDepthCurve_num (int_levels bid_levels') = Inr c'
               \<and> last (num_cumulative c') = last (num_cumulative c))
         \<and> (\<exists>c c'. computeDepthCurve_num (int_levels ask_levels) = Inr c
               \<and> computeDepthCurve_num (int_levels ask_levels') = Inr c'
               \<and> last (num_cumulative c') = last (num_cumulative c))
         \<and> (\<exists>levels levels'. mset levels' = mset levels
               \<and> computeDepthCurve_num (int_levels levels')
                   \<noteq> computeDepthCurve_num (int_levels levels))"
proof -
  have bsum: "sum_list (map snd bid_levels') = sum_list (map snd bid_levels)"
    using assms(1) by (rule sum_list_snd_perm_int)
  have asum: "sum_list (map snd ask_levels') = sum_list (map snd ask_levels)"
    using assms(2) by (rule sum_list_snd_perm_int)
  have same: "computeVolumes_num (int_levels bid_levels') (int_levels ask_levels')
           = computeVolumes_num (int_levels bid_levels) (int_levels ask_levels)"
    unfolding computeVolumes_num_int bsum asum by (rule refl)
  have vols: "\<forall>v. computeVolumes_num (int_levels bid_levels) (int_levels ask_levels) = Inr v
               \<longrightarrow> num_bidVolume v = PInt (sum_list (map snd bid_levels))
                 \<and> num_askVolume v = PInt (sum_list (map snd ask_levels))"
    unfolding computeVolumes_num_int by (auto split: sum.splits)
  have bids_curve: "\<exists>c c'. computeDepthCurve_num (int_levels bid_levels) = Inr c
               \<and> computeDepthCurve_num (int_levels bid_levels') = Inr c'
               \<and> last (num_cumulative c') = last (num_cumulative c)"
    unfolding computeDepthCurve_num_int using depth_total_perm_int [OF assms(1)] by simp
  have asks_curve: "\<exists>c c'. computeDepthCurve_num (int_levels ask_levels) = Inr c
               \<and> computeDepthCurve_num (int_levels ask_levels') = Inr c'
               \<and> last (num_cumulative c') = last (num_cumulative c)"
    unfolding computeDepthCurve_num_int using depth_total_perm_int [OF assms(2)] by simp
  have "mset ([(PInt 99, 3), (PInt 100, 2)] :: (pynum \<times> int) list) = mset [(PInt 100, 2), (PInt 99, 3)]
        \<and> computeDepthCurve_num (int_levels [(PInt 99, 3), (PInt 100, 2)])
            \<noteq> computeDepthCurve_num (int_levels [(PInt 100, 2), (PInt 99, 3)])"
    by (simp add: computeDepthCurve_num_def int_levels_def add_mset_commute)
  then have shape: "\<exists>levels levels'. mset levels' = mset levels
               \<and> computeDepthCurve_num (int_levels levels')
                   \<noteq> computeDepthCurve_num (int_levels levels)"
    by blast
  from same vols bids_curve asks_curve shape show ?thesis by blast
qed

theorem volumes_num_order_independent_witness:
  "mset ([(PInt 99, 3), (PInt 100, 2)] :: (pynum \<times> int) list) = mset [(PInt 100, 2), (PInt 99, 3)]
   \<and> mset ([(PInt 102, 4), (PInt 101, 1)] :: (pynum \<times> int) list) = mset [(PInt 101, 1), (PInt 102, 4)]
   \<and> computeVolumes_num (int_levels [(PInt 100, 2), (PInt 99, 3)])
        (int_levels [(PInt 101, 1), (PInt 102, 4)])
      = Inr \<lparr>num_bidVolume = PInt 5, num_askVolume = PInt 5,
              num_volumeRatio = PFloat (Finite 1)\<rparr>
   \<and> computeVolumes_num (int_levels [(PInt 99, 3), (PInt 100, 2)])
        (int_levels [(PInt 102, 4), (PInt 101, 1)])
      = Inr \<lparr>num_bidVolume = PInt 5, num_askVolume = PInt 5,
              num_volumeRatio = PFloat (Finite 1)\<rparr>
   \<and> (\<exists>c c'. computeDepthCurve_num (int_levels [(PInt 100, 2), (PInt 99, 3)]) = Inr c
          \<and> computeDepthCurve_num (int_levels [(PInt 99, 3), (PInt 100, 2)]) = Inr c'
          \<and> last (num_cumulative c') = last (num_cumulative c)
          \<and> num_cumulative c = [PInt 2, PInt 5]
          \<and> num_cumulative c' = [PInt 3, PInt 5])"
proof -
  let ?b = "[(PInt 100, 2), (PInt 99, 3)] :: (pynum \<times> int) list"
  let ?b' = "[(PInt 99, 3), (PInt 100, 2)] :: (pynum \<times> int) list"
  let ?a = "[(PInt 101, 1), (PInt 102, 4)] :: (pynum \<times> int) list"
  let ?a' = "[(PInt 102, 4), (PInt 101, 1)] :: (pynum \<times> int) list"
  have p1: "mset ?b' = mset ?b" by (simp add: add_mset_commute)
  have p2: "mset ?a' = mset ?a" by (simp add: add_mset_commute)
  have v: "computeVolumes_num (int_levels ?b) (int_levels ?a)
      = Inr \<lparr>num_bidVolume = PInt 5, num_askVolume = PInt 5,
              num_volumeRatio = PFloat (Finite 1)\<rparr>"
    by code_simp
  note inst = volumes_num_order_independent [OF p1 p2]
  from inst v have v': "computeVolumes_num (int_levels ?b') (int_levels ?a')
      = Inr \<lparr>num_bidVolume = PInt 5, num_askVolume = PInt 5,
              num_volumeRatio = PFloat (Finite 1)\<rparr>"
    by simp
  from inst obtain c c' where
    c: "computeDepthCurve_num (int_levels ?b) = Inr c"
    and c': "computeDepthCurve_num (int_levels ?b') = Inr c'"
    and l: "last (num_cumulative c') = last (num_cumulative c)"
    by blast
  from c have cc: "num_cumulative c = [PInt 2, PInt 5]"
    by (auto simp: computeDepthCurve_num_def int_levels_def)
  from c' have cc': "num_cumulative c' = [PInt 3, PInt 5]"
    by (auto simp: computeDepthCurve_num_def int_levels_def)
  from p1 p2 v v' c c' l cc cc' show ?thesis by blast
qed

section \<open>The functions on example data\<close>

lemma create_orderbook_depth_chart_example:
  "create_orderbook_depth_chart
      (Some \<lparr>symbol = Some ''BTCUSDT'', bids = Some [(100, 2), (99, 3)],
              asks = Some [(101, 1), (102, 4)]\<rparr>)
      ''orderbook_depth.html'' \<lparr>files = Map.empty, stdout = [], constructed = 0\<rparr>
   = (Inr (Some ''orderbook_depth.html''),
      \<lparr>files = [''orderbook_depth.html'' \<mapsto>
          \<lparr>traces = [Scatter [100, 99] [2, 5] ''Bid Depth'',
                     Scatter [101, 102] [1, 5] ''Ask Depth''],
           shapes = [VLine 100 ''green'', VLine 101 ''red''],
           annotations = [VLineLabel 100 ''Best Bid'', VLineLabel 101 ''Best Ask''],
           layout_title = Some (DepthTitle ''BTCUSDT'' 1 1)\<rparr>],
       stdout = [saved_message ''orderbook_depth.html''],
       constructed = 1\<rparr>)"
  by (simp add: create_orderbook_depth_chart_def falsy_def computeDepthCurve_def
      computeStatistics_def py_sum_def Figure_def add_trace_def add_vline_def add_shape_def
      add_annotation_def update_layout_def Let_def)

lemma create_orderbook_depth_chart_missing_key:
  "create_orderbook_depth_chart
      (Some \<lparr>symbol = Some ''BTCUSDT'', bids = Some [(100, 2)], asks = None\<rparr>)
      ''orderbook_depth.html'' \<lparr>files = Map.empty, stdout = [], constructed = 0\<rparr>
   = (Inl (KeyError ''asks''), \<lparr>files = Map.empty, stdout = [], constructed = 0\<rparr>)"
  by (simp add: create_orderbook_depth_chart_def falsy_def)

lemma add_footprint_markers_example:
  "add_footprint_markers Figure
      (Some [\<lparr>datetime = 30, low = 10, high = 12, is_aggressive_buy = True,
               is_aggressive_sell = False, is_trap = False\<rparr>,
             \<lparr>datetime = 45, low = 11, high = 14, is_aggressive_buy = False,
               is_aggressive_sell = True, is_trap = True\<rparr>])
   = \<lparr>traces = [Scatter [30] [10] ''Aggressive Buy'', Scatter [45] [14] ''Aggressive Sell''],
      shapes = [Rect (75 / 2) (105 / 2) 11 14 ''rgba(255, 255, 0, 0.3)''],
      annotations = [Annotation 45 14 warning_sign],
      layout_title = None\<rparr>"
  by (simp add: add_footprint_markers_def add_trap_def Figure_def add_trace_def add_shape_def
      add_annotation_def Let_def)

end
